theory Spec2Isabelle
  imports Main
begin

section \<open>The PWA listing endpoint (controllers/api/pwa.js)\<close>

text \<open>
  The endpoint answers \<open>GET /api/pwa/:id?\<close> with the directory's records as JSON, CSV or
  an RSS feed. This theory embeds the file function by function: the JavaScript built-ins
  it relies on (\<open>parseInt\<close>, \<open>||\<close>, \<open>Date.prototype.toISOString\<close>, \<open>String.prototype.split\<close>),
  the three writers, the sequential rendering loop and the route handler with its promise
  chain. The collaborators that live outside the file (the record store, the metadata
  helper, the template engine, the clock) are parameters of the model.
\<close>

subsection \<open>JavaScript values and built-ins\<close>

text \<open>
  A JavaScript number as far as this file uses one: the result of \<open>parseInt\<close> is
  \<open>NaN\<close>, an integer that a double holds, or an infinity; \<open>-0\<close> is \<open>Num 0\<close>.
\<close>

datatype jsnum = NaN | Num int | Infinity | NegInfinity

text \<open>
  The Number value of an integer: the nearest double, ties to the even significand. Up to
  \<open>2^53\<close> every integer is a double; beyond, the integer is cut to its 53 leading bits
  and rounded on the bits cut off; a magnitude that rounds to \<open>2^1024\<close> is infinite.
\<close>

fun bit_length :: "nat \<Rightarrow> nat" where
  "bit_length n = (if n = 0 then 0 else 1 + bit_length (n div 2))"

declare bit_length.simps [simp del]

definition roundTiesToEven :: "nat \<Rightarrow> nat" where
  "roundTiesToEven n =
     (if n < 2 ^ 53 then n
      else (let e = bit_length n - 53;
                q = n div 2 ^ e;
                r = n mod 2 ^ e;
                h = 2 ^ (e - 1)
            in (if h < r \<or> (r = h \<and> odd q) then q + 1 else q) * 2 ^ e))"

definition NumberValue :: "int \<Rightarrow> jsnum" where
  "NumberValue i =
     (let m = roundTiesToEven (nat \<bar>i\<bar>)
      in if 2 ^ 1024 \<le> m then (if i < 0 then NegInfinity else Infinity)
         else Num (if i < 0 then - int m else int m))"

text \<open>
  White space that \<open>parseInt\<close> skips, restricted to the characters an 8-bit \<open>char\<close> can
  hold: TAB, LF, VT, FF, CR, SP and NBSP.
\<close>

definition isWhiteSpace :: "char \<Rightarrow> bool" where
  "isWhiteSpace c = (c \<in> set [CHR 0x09, CHR 0x0A, CHR 0x0B, CHR 0x0C, CHR 0x0D, CHR 0x20, CHR 0xA0])"

definition isDigit :: "char \<Rightarrow> bool" where
  "isDigit c = (c \<in> set ''0123456789'')"

definition digitValue :: "char \<Rightarrow> int" where
  "digitValue c = int (of_char c) - 48"

text \<open>The mathematical value of a run of decimal digits, most significant first.\<close>

fun mathInt :: "int \<Rightarrow> string \<Rightarrow> int" where
  "mathInt acc [] = acc"
| "mathInt acc (c # cs) = mathInt (acc * 10 + digitValue c) cs"

text \<open>
  \<open>parseInt(string, 10)\<close> on a string: leading white space is dropped, one sign is
  read, the longest run of decimal digits is taken, and what follows is ignored. No digit
  at all gives \<open>NaN\<close>; otherwise the result is the Number value of the signed integer
  the digits spell.
\<close>

definition leading_digits :: "string \<Rightarrow> string" where
  "leading_digits inputString =
     (let S = dropWhile isWhiteSpace inputString;
          S' = (case S of c # cs \<Rightarrow> if c = CHR ''+'' \<or> c = CHR ''-'' then cs else S | [] \<Rightarrow> S)
      in takeWhile isDigit S')"

definition parseInt_string :: "string \<Rightarrow> jsnum" where
  "parseInt_string inputString =
     (let S = dropWhile isWhiteSpace inputString;
          sign = (case S of c # _ \<Rightarrow> if c = CHR ''-'' then - 1 else 1 | [] \<Rightarrow> (1::int));
          Z = leading_digits inputString
      in if Z = [] then NaN else NumberValue (sign * mathInt 0 Z))"

text \<open>
  A query-string parameter is a string or absent (\<open>undefined\<close>). \<open>parseInt\<close> first
  converts its argument to a string, and \<open>undefined\<close> becomes the text \<open>undefined\<close>.
\<close>

definition ToString :: "string option \<Rightarrow> string" where
  "ToString v = (case v of None \<Rightarrow> ''undefined'' | Some s \<Rightarrow> s)"

definition parseInt :: "string option \<Rightarrow> jsnum" where
  "parseInt v = parseInt_string (ToString v)"

text \<open>\<open>a || b\<close> on an optional string: \<open>undefined\<close> and the empty string are falsy.\<close>

definition or_string :: "string option \<Rightarrow> string \<Rightarrow> string" where
  "or_string a b = (case a of None \<Rightarrow> b | Some s \<Rightarrow> if s = [] then b else s)"

text \<open>\<open>a || b\<close> on a number: \<open>NaN\<close> and zero are falsy, everything else is truthy.\<close>

definition or_number :: "jsnum \<Rightarrow> jsnum \<Rightarrow> jsnum" where
  "or_number a b =
     (case a of
        NaN \<Rightarrow> b
      | Num n \<Rightarrow> if n = 0 then b else Num n
      | Infinity \<Rightarrow> Infinity
      | NegInfinity \<Rightarrow> NegInfinity)"

subsection \<open>The request and its parameters\<close>

text \<open>
  The parts of the request the file reads: the optional path segment \<open>req.params.id\<close>,
  the query-string parameters and \<open>req.originalUrl\<close>. A parameter is a string or absent;
  repeated and bracketed parameters, which the framework parses into arrays and objects,
  are outside the model, as are characters beyond the 8-bit \<open>char\<close>.
\<close>

record query =
  q_format :: "string option"
  q_sort :: "string option"
  q_skip :: "string option"
  q_limit :: "string option"
  q_contentOnly :: "string option"

record request =
  params_id :: "string option"
  req_query :: query
  originalUrl :: string

text \<open>
  The first four statements of the route handler: \<open>format\<close>, \<open>sort\<close>, \<open>skip\<close> and
  \<open>limit\<close>.
\<close>

record params =
  p_format :: string
  p_sort :: string
  p_skip :: jsnum
  p_limit :: jsnum

definition parse_params :: "request \<Rightarrow> params" where
  "parse_params req =
     \<lparr> p_format = or_string (q_format (req_query req)) ''json'',
       p_sort = or_string (q_sort (req_query req)) ''newest'',
       p_skip = parseInt (q_skip (req_query req)),
       p_limit = or_number (parseInt (q_limit (req_query req))) (Num 100) \<rparr>"

subsection \<open>Dates\<close>

text \<open>
  A record's timestamp, as \<open>new Date(date)\<close> sees it: an invalid date (a missing or
  unparseable value), or an instant given by its UTC calendar fields year, month, day,
  hours, minutes, seconds and milliseconds, which are what \<open>toISOString\<close> prints.
\<close>

datatype jsdate = InvalidDate | DateUTC int nat nat nat nat nat nat

datatype error =
    RangeError   \<comment> \<open>thrown by \<open>toISOString\<close> on an invalid date\<close>
  | External string   \<comment> \<open>any error value handed over by a collaborator\<close>

definition digitChar :: "nat \<Rightarrow> char" where
  "digitChar n = ''0123456789'' ! n"

text \<open>The decimal numeral of a natural number (number-to-string conversion).\<close>

fun dec :: "nat \<Rightarrow> string" where
  "dec n = (if n < 10 then [digitChar n] else dec (n div 10) @ [digitChar (n mod 10)])"

declare dec.simps [simp del]

definition pad :: "nat \<Rightarrow> nat \<Rightarrow> string" where
  "pad width n = replicate (width - length (dec n)) CHR ''0'' @ dec n"

text \<open>Years 0 to 9999 print with four digits, all others with a sign and six digits.\<close>

definition isoYear :: "int \<Rightarrow> string" where
  "isoYear y =
     (if 0 \<le> y \<and> y \<le> 9999 then pad 4 (nat y)
      else (if y < 0 then CHR ''-'' else CHR ''+'') # pad 6 (nat \<bar>y\<bar>))"

definition isoDate :: "int \<Rightarrow> nat \<Rightarrow> nat \<Rightarrow> string" where
  "isoDate y mo d = isoYear y @ ''-'' @ pad 2 mo @ ''-'' @ pad 2 d"

definition isoTime :: "nat \<Rightarrow> nat \<Rightarrow> nat \<Rightarrow> nat \<Rightarrow> string" where
  "isoTime h mi s ms = pad 2 h @ '':'' @ pad 2 mi @ '':'' @ pad 2 s @ ''.'' @ pad 3 ms @ ''Z''"

definition toISOString :: "jsdate \<Rightarrow> error + string" where
  "toISOString date =
     (case date of
        InvalidDate \<Rightarrow> Inl RangeError
      | DateUTC y mo d h mi s ms \<Rightarrow> Inr (isoDate y mo d @ ''T'' @ isoTime h mi s ms))"

text \<open>\<open>str.split(sep)\<close> for a one-character separator.\<close>

fun split :: "char \<Rightarrow> string \<Rightarrow> string list" where
  "split sep [] = [[]]"
| "split sep (c # cs) =
     (if c = sep then [] # split sep cs
      else (case split sep cs of [] \<Rightarrow> [[c]] | w # ws \<Rightarrow> (c # w) # ws))"

text \<open>
  Values that reach a CSV cell or a JSON property. A property whose value is
  \<open>undefined\<close> is a property of the object handed to \<open>res.json\<close>; the serialiser
  leaves it out of the text it sends.
\<close>

datatype jsval =
    JUndefined
  | JNull
  | JBool bool
  | JNum int
  | JStr string
  | JArr "jsval list"
  | JObj "(string \<times> jsval) list"

text \<open>\<open>getDate\<close>: the text before the first \<open>T\<close> of the ISO rendering.\<close>

definition getDate :: "jsdate \<Rightarrow> error + jsval" where
  "getDate date =
     (case toISOString date of
        Inl e \<Rightarrow> Inl e
      | Inr s \<Rightarrow> Inr (case split CHR ''T'' s of [] \<Rightarrow> JUndefined | d # _ \<Rightarrow> JStr d))"

subsection \<open>Records, feeds and the response\<close>

text \<open>
  A record of the directory, with the fields the file reads (\<open>pwa_id\<close> is the record's
  \<open>id\<close>). The identifier, the names and the URLs are strings, the quality metrics are
  values the file passes on without looking at them, and the two timestamps are dates.
\<close>

record pwa =
  pwa_id :: string
  displayName :: string
  name :: string
  description :: string
  absoluteStartUrl :: string
  manifestUrl :: string
  iconUrl128 :: string
  lighthouseScore :: jsval
  webPageTest :: jsval
  pageSpeed :: jsval
  created :: jsdate
  updated :: jsdate

type_synonym html = string

datatype custom_element =
    MediaThumbnail string string string   \<comment> \<open>url, height, width\<close>
  | LLink string string string   \<comment> \<open>l:rel, l:type, rdf:resource\<close>

record rss_item =
  item_title :: string
  item_url :: string
  item_description :: html
  item_guid :: string
  item_date :: jsdate
  item_custom_elements :: "custom_element list"

record feed =
  feed_title :: string
  feed_description :: string
  feed_url :: string
  site_url :: string
  image_url :: string
  pubDate :: jsdate
  custom_namespaces :: "(string \<times> string) list"
  items :: "rss_item list"

datatype body =
    JsonBody "(string \<times> jsval) list list"   \<comment> \<open>\<open>res.json(pwaList)\<close>\<close>
  | JsonError error   \<comment> \<open>\<open>res.json(err)\<close>\<close>
  | CsvBody "jsval list list"   \<comment> \<open>\<open>res.csv(csv)\<close>\<close>
  | XmlBody feed   \<comment> \<open>\<open>res.send(feed.xml())\<close>, the feed that is serialised\<close>

record sent_response =
  sent_status :: nat
  sent_headers :: "string \<rightharpoonup> string"
  sent_body :: body

record render_call =
  r_pwa :: string
  r_begin :: nat
  r_end :: nat

text \<open>
  Everything the handler can change: the response object (\<open>statusCode\<close>, \<open>headers\<close> and
  the terminal writes in \<open>sent\<close>) and the console. Three more fields record what the
  run did, so that properties of it can be stated: the time, which only an awaited render
  advances, the template renders with the instants they began and completed, and the
  promise rejections that no handler received.
\<close>

record state =
  statusCode :: nat
  headers :: "string \<rightharpoonup> string"
  sent :: "sent_response list"
  console :: "error list"
  clock :: nat
  renders :: "render_call list"
  unhandled :: "error list"

definition setHeader :: "string \<Rightarrow> string \<Rightarrow> state \<Rightarrow> state" where
  "setHeader k v st = st\<lparr>headers := (headers st)(k \<mapsto> v)\<rparr>"

definition status :: "nat \<Rightarrow> state \<Rightarrow> state" where
  "status code st = st\<lparr>statusCode := code\<rparr>"

text \<open>
  A terminal write: \<open>res.json\<close>, \<open>res.csv\<close> and \<open>res.send\<close> each send the current status
  and headers with a body. (The framework's own defaulting of \<open>Content-Type\<close>,
  \<open>Content-Length\<close> and \<open>ETag\<close> inside these calls is not modelled.)
\<close>

definition write_body :: "body \<Rightarrow> state \<Rightarrow> state" where
  "write_body b st =
     st\<lparr>sent := sent st @ [\<lparr>sent_status = statusCode st, sent_headers = headers st, sent_body = b\<rparr>]\<rparr>"

definition console_log :: "error \<Rightarrow> state \<Rightarrow> state" where
  "console_log e st = st\<lparr>console := console st @ [e]\<rparr>"

subsection \<open>CsvWriter and JsonWriter\<close>

definition csvLine :: "pwa \<Rightarrow> jsval \<Rightarrow> jsval \<Rightarrow> jsval list" where
  "csvLine p c u =
     [JStr (pwa_id p), JStr (absoluteStartUrl p), JStr (manifestUrl p), lighthouseScore p, c, u]"

text \<open>
  The \<open>forEach\<close> of \<open>CsvWriter.write\<close>: \<open>csv\<close> is the array built so far, each record
  pushes one line, and an exception of \<open>getDate\<close> leaves the loop.
\<close>

fun csv_forEach :: "jsval list list \<Rightarrow> pwa list \<Rightarrow> error + jsval list list" where
  "csv_forEach csv [] = Inr csv"
| "csv_forEach csv (p # ps) =
     (case getDate (created p) of
        Inl e \<Rightarrow> Inl e
      | Inr c \<Rightarrow>
          (case getDate (updated p) of
             Inl e \<Rightarrow> Inl e
           | Inr u \<Rightarrow> csv_forEach (csv @ [csvLine p c u]) ps))"

definition csv_header :: "jsval list" where
  "csv_header =
     [JStr ''id'', JStr ''absoluteStartUrl'', JStr ''manifestUrl'', JStr ''lighthouseScore'',
      JStr ''created'', JStr ''updated'']"

text \<open>
  A writer returns the exception it threw, if any, with the state at that point. The
  header row is put in front (\<open>unshift\<close>) after the loop.
\<close>

definition CsvWriter_write :: "pwa list \<Rightarrow> state \<Rightarrow> (error + unit) \<times> state" where
  "CsvWriter_write pwas st =
     (case csv_forEach [] pwas of
        Inl e \<Rightarrow> (Inl e, st)
      | Inr csv \<Rightarrow>
          (Inr (), write_body (CsvBody (csv_header # csv)) (setHeader ''Content-Type'' ''text/csv'' st)))"

definition jsonObject :: "pwa \<Rightarrow> jsval \<Rightarrow> jsval \<Rightarrow> (string \<times> jsval) list" where
  "jsonObject dbPwa c u =
     [(''id'', JStr (pwa_id dbPwa)),
      (''absoluteStartUrl'', JStr (absoluteStartUrl dbPwa)),
      (''manifestUrl'', JStr (manifestUrl dbPwa)),
      (''lighthouseScore'', lighthouseScore dbPwa),
      (''webPageTest'', webPageTest dbPwa),
      (''pageSpeed'', pageSpeed dbPwa),
      (''created'', c),
      (''updated'', u)]"

fun json_forEach :: "(string \<times> jsval) list list \<Rightarrow> pwa list \<Rightarrow> error + (string \<times> jsval) list list" where
  "json_forEach pwaList [] = Inr pwaList"
| "json_forEach pwaList (dbPwa # ps) =
     (case getDate (created dbPwa) of
        Inl e \<Rightarrow> Inl e
      | Inr c \<Rightarrow>
          (case getDate (updated dbPwa) of
             Inl e \<Rightarrow> Inl e
           | Inr u \<Rightarrow> json_forEach (pwaList @ [jsonObject dbPwa c u]) ps))"

definition JsonWriter_write :: "pwa list \<Rightarrow> state \<Rightarrow> (error + unit) \<times> state" where
  "JsonWriter_write pwas st =
     (case json_forEach [] pwas of
        Inl e \<Rightarrow> (Inl e, st)
      | Inr pwaList \<Rightarrow>
          (Inr (), write_body (JsonBody pwaList) (setHeader ''Content-Type'' ''application/json'' st)))"

subsection \<open>Rendering one record and the sequential loop\<close>

text \<open>
  The collaborators of the file. \<open>pwaLib.find\<close> and \<open>pwaLib.list\<close> return promises: the
  model gives the value they settle with (\<open>Inl\<close> a rejection); a listing resolves to an
  object of which the handler reads \<open>pwas\<close>, the list given here.
  \<open>libMetadata.fromRequest\<close> builds the base of the template context. \<open>res_render\<close> is
  the template engine behind \<open>res.render(view, options, callback)\<close>: called at some
  instant, it completes after a latency of its choosing with an error or with HTML.
  \<open>now\<close> is \<open>new Date()\<close>.
\<close>

record 'm render_arg =
  arg_meta :: 'm
  arg_pwa :: pwa
  arg_title :: string
  arg_description :: string
  arg_backlink :: bool
  arg_contentOnly :: "string option"

record 'm env =
  pwaLib_find :: "string \<Rightarrow> error + pwa"
  pwaLib_list :: "jsnum \<Rightarrow> jsnum \<Rightarrow> string \<Rightarrow> error + pwa list"
  libMetadata_fromRequest :: "request \<Rightarrow> string \<Rightarrow> 'm"
  res_render :: "string \<Rightarrow> 'm render_arg \<Rightarrow> nat \<Rightarrow> nat \<times> (error + html)"
  now :: jsdate

text \<open>
  \<open>render\<close>: the promise around \<open>res.render\<close>. Awaiting it takes the render's latency;
  an error is logged and rejects the promise (the \<open>resolve\<close> after \<open>reject\<close> has no
  effect).
\<close>

definition render :: "'m env \<Rightarrow> string \<Rightarrow> 'm render_arg \<Rightarrow> state \<Rightarrow> (error + html) \<times> state" where
  "render e view options st =
     (case res_render e view options (clock st) of
        (latency, outcome) \<Rightarrow>
          (let st' = st\<lparr>clock := clock st + latency,
                       renders := renders st @
                         [\<lparr>r_pwa = pwa_id (arg_pwa options), r_begin = clock st,
                           r_end = clock st + latency\<rparr>]\<rparr>
           in case outcome of
                Inl err \<Rightarrow> (Inl err, console_log err st')
              | Inr html \<Rightarrow> (Inr html, st')))"

definition renderOnePwaRss :: "'m env \<Rightarrow> pwa \<Rightarrow> request \<Rightarrow> state \<Rightarrow> (error + html) \<times> state" where
  "renderOnePwaRss e p req st =
     (let url = originalUrl req;
          contentOnly = q_contentOnly (req_query req);
          arg = \<lparr> arg_meta = libMetadata_fromRequest e req url,
                  arg_pwa = p,
                  arg_title = ''PWA Directory: '' @ name p,
                  arg_description = ''PWA Directory: '' @ name p @ '' - '' @ description p,
                  arg_backlink = True,
                  arg_contentOnly = contentOnly \<rparr>
      in render e ''pwas/view-rss.hbs'' arg st)"

text \<open>
  \<open>asyncForEach\<close>: the index runs from 0 to the length of the array, and each callback
  is awaited before the index moves on. A rejected callback rejects the loop.
\<close>

function asyncForEach_from ::
  "nat \<Rightarrow> 'a list \<Rightarrow> ('a \<Rightarrow> nat \<Rightarrow> 's \<Rightarrow> (error + unit) \<times> 's) \<Rightarrow> 's \<Rightarrow> (error + unit) \<times> 's" where
  "asyncForEach_from index array callback s =
     (if index < length array then
        (case callback (array ! index) index s of
           (Inl err, s') \<Rightarrow> (Inl err, s')
         | (Inr _, s') \<Rightarrow> asyncForEach_from (index + 1) array callback s')
      else (Inr (), s))"
  by pat_completeness auto
termination
  by (relation "measure (\<lambda>(index, array, callback, s). length array - index)") auto

declare asyncForEach_from.simps [simp del]

definition asyncForEach ::
  "'a list \<Rightarrow> ('a \<Rightarrow> nat \<Rightarrow> 's \<Rightarrow> (error + unit) \<times> 's) \<Rightarrow> 's \<Rightarrow> (error + unit) \<times> 's" where
  "asyncForEach array callback s = asyncForEach_from 0 array callback s"

subsection \<open>RssWriter\<close>

definition new_feed :: "jsdate \<Rightarrow> feed" where
  "new_feed date =
     \<lparr> feed_title = ''PWA Directory'',
       feed_description = ''A Directory of Progressive Web Apps'',
       feed_url = ''https://pwa-directory.appspot.com/api/pwa?format=rss'',
       site_url = ''https://pwa-directory.appspot.com/'',
       image_url = ''https://pwa-directory.appspot.com/favicons/android-chrome-144x144.png'',
       pubDate = date,
       custom_namespaces =
         [(''rdf'', ''http://www.w3.org/1999/02/22-rdf-syntax-ns#''),
          (''l'', ''http://purl.org/rss/1.0/modules/link/''),
          (''media'', ''http://search.yahoo.com/mrss/'')],
       items = [] \<rparr>"

definition feed_item :: "rss_item \<Rightarrow> feed \<Rightarrow> feed" where
  "feed_item it f = f\<lparr>items := items f @ [it]\<rparr>"

definition rss_item_of :: "pwa \<Rightarrow> html \<Rightarrow> rss_item" where
  "rss_item_of p html =
     \<lparr> item_title = displayName p,
       item_url = ''https://pwa-directory.appspot.com/pwas/'' @ pwa_id p,
       item_description = html,
       item_guid = pwa_id p,
       item_date = created p,
       item_custom_elements =
         [MediaThumbnail (iconUrl128 p) ''128'' ''128'',
          LLink ''http://purl.org/rss/1.0/modules/link/#alternate'' ''application/json''
            (''https://pwa-directory.appspot.com/api/pwa/'' @ pwa_id p)] \<rparr>"

text \<open>
  The callback of the loop in \<open>start\<close>: await the render, then append the item. It works
  on the feed under construction and the state.
\<close>

definition rss_callback ::
  "'m env \<Rightarrow> request \<Rightarrow> pwa \<Rightarrow> nat \<Rightarrow> feed \<times> state \<Rightarrow> (error + unit) \<times> (feed \<times> state)" where
  "rss_callback e req p index fs =
     (case renderOnePwaRss e p req (snd fs) of
        (Inl err, st') \<Rightarrow> (Inl err, (fst fs, st'))
      | (Inr html, st') \<Rightarrow> (Inr (), (feed_item (rss_item_of p html) (fst fs), st')))"

text \<open>
  \<open>start\<close>: run the loop, then set the content type and send the feed with status 200.
  The result is what the promise of \<open>start\<close> settles with.
\<close>

definition start :: "'m env \<Rightarrow> request \<Rightarrow> pwa list \<Rightarrow> feed \<Rightarrow> state \<Rightarrow> (error + unit) \<times> state" where
  "start e req pwas f st =
     (case asyncForEach pwas (rss_callback e req) (f, st) of
        (Inl err, (f', st')) \<Rightarrow> (Inl err, st')
      | (Inr _, (f', st')) \<Rightarrow>
          (Inr (), write_body (XmlBody f') (status 200 (setHeader ''Content-Type'' ''application/rss+xml'' st'))))"

text \<open>
  \<open>RssWriter.write\<close> calls \<open>start()\<close> and drops the promise it returns: \<open>write\<close> itself
  returns normally, and a rejection of \<open>start\<close> has no handler.
\<close>

definition RssWriter_write :: "'m env \<Rightarrow> request \<Rightarrow> pwa list \<Rightarrow> state \<Rightarrow> (error + unit) \<times> state" where
  "RssWriter_write e req pwas st =
     (case start e req pwas (new_feed (now e)) st of
        (Inl err, st') \<Rightarrow> (Inr (), st'\<lparr>unhandled := unhandled st' @ [err]\<rparr>)
      | (Inr _, st') \<Rightarrow> (Inr (), st'))"

subsection \<open>The route handler\<close>

definition CACHE_CONTROL_EXPIRES :: nat where
  "CACHE_CONTROL_EXPIRES = 60 * 60 * 1"

text \<open>The \<open>then\<close> callback of the handler: the switch on the format.\<close>

definition format_switch ::
  "'m env \<Rightarrow> request \<Rightarrow> string \<Rightarrow> pwa list \<Rightarrow> state \<Rightarrow> (error + unit) \<times> state" where
  "format_switch e req format pwas st =
     (if format = ''csv'' then CsvWriter_write pwas st
      else if format = ''rss'' then RssWriter_write e req pwas st
      else JsonWriter_write pwas st)"

text \<open>The final \<open>catch\<close> callback of the handler.\<close>

definition catch_500 :: "error \<Rightarrow> state \<Rightarrow> state" where
  "catch_500 err st = write_body (JsonError err) (status 500 (console_log err st))"

text \<open>The \<open>catch\<close> callback on the lookup.\<close>

definition catch_404 :: "error \<Rightarrow> state \<Rightarrow> state" where
  "catch_404 err st = write_body (JsonError err) (status 404 (console_log err st))"

text \<open>\<open>.then(...).catch(...)\<close> on a promise that resolved with the records.\<close>

definition then_catch :: "'m env \<Rightarrow> request \<Rightarrow> string \<Rightarrow> pwa list \<Rightarrow> state \<Rightarrow> state" where
  "then_catch e req format pwas st =
     (case format_switch e req format pwas st of
        (Inl err, st') \<Rightarrow> catch_500 err st'
      | (Inr _, st') \<Rightarrow> st')"

text \<open>
  The handler, from the state the framework hands over to the state when nothing is left
  to run. \<open>req.params.id\<close> is truthy when the path segment is there and not empty. With
  an id, a found record resolves the promise with a one-element list, and a failed
  lookup answers 404 and leaves the promise pending, so that neither \<open>then\<close> nor the
  final \<open>catch\<close> runs. Without an id the promise takes the outcome of the listing.
\<close>

definition handler :: "'m env \<Rightarrow> request \<Rightarrow> state \<Rightarrow> state" where
  "handler e req st =
     (let ps = parse_params req;
          format = p_format ps;
          sort = p_sort ps;
          skip = p_skip ps;
          limit = p_limit ps;
          st1 = setHeader ''Cache-Control'' (''public, max-age='' @ dec CACHE_CONTROL_EXPIRES) st;
          listing =
            (case pwaLib_list e skip limit sort of
               Inr pwas \<Rightarrow> then_catch e req format pwas st1
             | Inl err \<Rightarrow> catch_500 err st1)
      in case params_id req of
           None \<Rightarrow> listing
         | Some i \<Rightarrow>
             if i \<noteq> [] then
               (case pwaLib_find e i of
                  Inr onePwa \<Rightarrow> then_catch e req format [onePwa] st1
                | Inl err \<Rightarrow> catch_404 err st1)
             else listing)"

text \<open>The state in which the framework calls the handler: status 200, nothing sent.\<close>

definition fresh :: "nat \<Rightarrow> state" where
  "fresh t =
     \<lparr> statusCode = 200, headers = Map.empty, sent = [], console = [], clock = t,
       renders = [], unhandled = [] \<rparr>"

subsection \<open>Properties and example inputs\<close>

text \<open>
  The specification's day-precision projection of a timestamp: its calendar day, written
  \<open>YYYY-MM-DD\<close>. The format has four digits for the year.
\<close>

definition day_precision :: "jsdate \<Rightarrow> string" where
  "day_precision date =
     (case date of
        InvalidDate \<Rightarrow> []
      | DateUTC y mo d h mi s ms \<Rightarrow> pad 4 (nat y) @ ''-'' @ pad 2 mo @ ''-'' @ pad 2 d)"

text \<open>The day as \<open>toISOString\<close> prints it: the text before the \<open>T\<close>.\<close>

definition iso_day :: "jsdate \<Rightarrow> string" where
  "iso_day date =
     (case date of InvalidDate \<Rightarrow> [] | DateUTC y mo d h mi s ms \<Rightarrow> isoDate y mo d)"

definition four_digit_year :: "jsdate \<Rightarrow> bool" where
  "four_digit_year date =
     (case date of InvalidDate \<Rightarrow> False | DateUTC y mo d h mi s ms \<Rightarrow> 0 \<le> y \<and> y \<le> 9999)"

definition valid_date :: "jsdate \<Rightarrow> bool" where
  "valid_date date = (date \<noteq> InvalidDate)"

text \<open>
  The specification's word for a query-string value that is a number: an optional sign
  and then decimal digits only, at least one.
\<close>

definition numeric :: "string \<Rightarrow> bool" where
  "numeric s =
     (let ds = (case s of c # cs \<Rightarrow> if c = CHR ''+'' \<or> c = CHR ''-'' then cs else s | [] \<Rightarrow> s)
      in ds \<noteq> [] \<and> list_all isDigit ds)"

text \<open>A header is set to a value, and every response sent so far carried it.\<close>

definition header_kept :: "string \<Rightarrow> string \<Rightarrow> state \<Rightarrow> bool" where
  "header_kept k v st = (headers st k = Some v \<and> list_all (\<lambda>r. sent_headers r k = Some v) (sent st))"

text \<open>The keys of an object of the JSON listing, in the order they are assigned.\<close>

definition json_keys :: "string list" where
  "json_keys =
     [''id'', ''absoluteStartUrl'', ''manifestUrl'', ''lighthouseScore'', ''webPageTest'',
      ''pageSpeed'', ''created'', ''updated'']"

text \<open>The two records of the specification's example, and one without a creation date.\<close>

definition example_a :: pwa where
  "example_a =
     \<lparr> pwa_id = ''a'', displayName = ''Foo'', name = ''foo'', description = ''first'',
       absoluteStartUrl = ''https://foo.example/'', manifestUrl = ''https://foo.example/m.json'',
       iconUrl128 = ''https://foo.example/i.png'', lighthouseScore = JNum 90,
       webPageTest = JUndefined, pageSpeed = JNull,
       created = DateUTC 2020 1 2 10 0 0 0, updated = DateUTC 2020 3 4 23 59 59 999 \<rparr>"

definition example_b :: pwa where
  "example_b =
     \<lparr> pwa_id = ''b'', displayName = ''Bar'', name = ''bar'', description = ''second'',
       absoluteStartUrl = ''https://bar.example/'', manifestUrl = ''https://bar.example/m.json'',
       iconUrl128 = ''https://bar.example/i.png'', lighthouseScore = JNum 55,
       webPageTest = JUndefined, pageSpeed = JNull,
       created = DateUTC 2020 1 5 0 0 0 0, updated = DateUTC 2020 1 5 0 0 0 0 \<rparr>"

definition example_undated :: pwa where
  "example_undated = example_b\<lparr>pwa_id := ''c'', created := InvalidDate\<rparr>"

text \<open>
  A store that knows \<open>a\<close> and \<open>b\<close>, with a template engine that takes longer for \<open>a\<close>
  than for \<open>b\<close>; and the same store with an engine that fails on \<open>b\<close>.
\<close>

definition example_env :: "unit env" where
  "example_env =
     \<lparr> pwaLib_find = (\<lambda>i. if i = ''a'' then Inr example_a
                          else if i = ''b'' then Inr example_b
                          else Inl (External ''not found'')),
       pwaLib_list = (\<lambda>skip limit sort. Inr [example_a, example_b]),
       libMetadata_fromRequest = (\<lambda>req url. ()),
       res_render = (\<lambda>view arg t. (if pwa_id (arg_pwa arg) = ''a'' then 7 else 2,
                                     Inr (''<p>'' @ arg_title arg @ ''</p>''))),
       now = DateUTC 2026 1 1 0 0 0 0 \<rparr>"

definition failing_env :: "unit env" where
  "failing_env =
     example_env\<lparr>res_render :=
       (\<lambda>view arg t. (3, if pwa_id (arg_pwa arg) = ''b'' then Inl (External ''render failed'')
                          else Inr ''<p>ok</p>''))\<rparr>"

definition no_query :: query where
  "no_query =
     \<lparr> q_format = None, q_sort = None, q_skip = None, q_limit = None, q_contentOnly = None \<rparr>"

definition GET :: "string option \<Rightarrow> query \<Rightarrow> request" where
  "GET i q = \<lparr> params_id = i, req_query = q, originalUrl = ''/api/pwa'' \<rparr>"

text \<open>The CSV line and the JSON object of a record whose dates are valid.\<close>

definition csv_row :: "pwa \<Rightarrow> jsval list" where
  "csv_row p = csvLine p (JStr (iso_day (created p))) (JStr (iso_day (updated p)))"

definition json_row :: "pwa \<Rightarrow> (string \<times> jsval) list" where
  "json_row p = jsonObject p (JStr (iso_day (created p))) (JStr (iso_day (updated p)))"

text \<open>
  What a request can come to: one more response and no new unhandled rejection, or no
  response and one more unhandled rejection.
\<close>

definition answered :: "state \<Rightarrow> state \<Rightarrow> bool" where
  "answered st st' = (length (sent st') = length (sent st) + 1 \<and> unhandled st' = unhandled st)"

definition abandoned :: "state \<Rightarrow> state \<Rightarrow> bool" where
  "abandoned st st' = (sent st' = sent st \<and> length (unhandled st') = length (unhandled st) + 1)"

section \<open>Properties\<close>

text \<open>
  The properties are grouped by what they are about. Those that hold of every input are
  proved by induction on the records or on the loop; each is then applied to the example
  inputs, where the model is evaluated by rewriting with its definitions.
\<close>

subsection \<open>Unfolding the model on concrete inputs\<close>

lemmas param_defs = parse_params_def parseInt_def parseInt_string_def leading_digits_def ToString_def
  NumberValue_def roundTiesToEven_def
  isWhiteSpace_def isDigit_def digitValue_def or_string_def or_number_def GET_def no_query_def

lemmas number_defs = dec.simps digitChar_def CACHE_CONTROL_EXPIRES_def

lemmas date_defs = getDate_def toISOString_def isoDate_def isoTime_def isoYear_def pad_def
  iso_day_def day_precision_def valid_date_def four_digit_year_def

lemmas example_defs = example_a_def example_b_def example_undated_def example_env_def failing_env_def

lemmas response_defs = setHeader_def status_def write_body_def console_log_def catch_500_def
  catch_404_def fresh_def

lemmas writer_defs = CsvWriter_write_def JsonWriter_write_def csvLine_def csv_header_def jsonObject_def
  RssWriter_write_def start_def asyncForEach_def asyncForEach_from.simps rss_callback_def
  renderOnePwaRss_def render_def new_feed_def feed_item_def rss_item_of_def format_switch_def
  then_catch_def

lemmas handler_defs = handler_def Let_def param_defs example_defs response_defs writer_defs

subsection \<open>Dates\<close>

lemma digitChar_not_T: "n < 10 \<Longrightarrow> digitChar n \<noteq> CHR ''T''"
proof -
  assume "n < 10"
  then have "n \<in> {0,1,2,3,4,5,6,7,8,9}" by auto
  then show ?thesis by (auto simp: digitChar_def)
qed

lemma dec_no_T: "CHR ''T'' \<notin> set (dec n)"
proof (induction n rule: dec.induct)
  case (1 n)
  show ?case
  proof (cases "n < 10")
    case True
    then show ?thesis using digitChar_not_T[of n] by (subst dec.simps) simp
  next
    case False
    have "n mod 10 < 10" by simp
    then have "digitChar (n mod 10) \<noteq> CHR ''T''" by (rule digitChar_not_T)
    with False 1 show ?thesis by (subst dec.simps) auto
  qed
qed

lemma pad_no_T: "CHR ''T'' \<notin> set (pad w n)"
  using dec_no_T by (auto simp: pad_def)

lemma isoDate_no_T: "CHR ''T'' \<notin> set (isoDate y mo d)"
  using pad_no_T by (auto simp: isoDate_def isoYear_def)

lemma split_first: "sep \<notin> set xs \<Longrightarrow> split sep (xs @ sep # ys) = xs # split sep ys"
  by (induction xs) auto

lemma getDate_DateUTC: "getDate (DateUTC y mo d h mi s ms) = Inr (JStr (isoDate y mo d))"
  using split_first[OF isoDate_no_T, of y mo d "isoTime h mi s ms"]
  by (simp add: getDate_def toISOString_def)

lemma getDate_Invalid: "getDate InvalidDate = Inl RangeError"
  by (simp add: getDate_def toISOString_def)

lemma getDate_valid: "valid_date d \<Longrightarrow> getDate d = Inr (JStr (iso_day d))"
  by (cases d) (simp_all add: valid_date_def iso_day_def getDate_DateUTC)

lemma getDate_ok_iff: "(\<exists>v. getDate d = Inr v) = valid_date d"
  by (cases d) (simp_all add: valid_date_def getDate_DateUTC getDate_Invalid)

lemma length_dec: "0 < k \<Longrightarrow> n < 10 ^ k \<Longrightarrow> length (dec n) \<le> k"
proof (induction n arbitrary: k rule: dec.induct)
  case (1 n)
  show ?case
  proof (cases "n < 10")
    case True
    then show ?thesis using 1(2) by (subst dec.simps) simp
  next
    case False
    then obtain j where k: "k = Suc j" "0 < j" using 1(2,3) by (cases k; cases "k - 1") auto
    have "n div 10 < 10 ^ j" using 1(3) k by (simp add: less_mult_imp_div_less mult.commute)
    then have "length (dec (n div 10)) \<le> j" using 1(1)[OF False k(2)] by simp
    then show ?thesis using False k by (subst dec.simps) simp
  qed
qed

lemma length_dec_pos: "0 < length (dec n)"
  by (subst dec.simps) simp

lemma length_pad: "0 < w \<Longrightarrow> n < 10 ^ w \<Longrightarrow> length (pad w n) = w"
  using length_dec[of w n] by (simp add: pad_def)

lemma iso_day_four_digit: "four_digit_year d \<Longrightarrow> iso_day d = day_precision d"
  by (cases d) (simp_all add: four_digit_year_def iso_day_def day_precision_def isoDate_def isoYear_def)

lemma four_digit_valid: "four_digit_year d \<Longrightarrow> valid_date d"
  by (cases d) (simp_all add: four_digit_year_def valid_date_def)

text \<open>
  For a year of four digits the day-precision string is the first ten characters of the
  ISO rendering, the part before the \<open>T\<close>.
\<close>

lemma day_precision_is_prefix:
  assumes "0 \<le> y" and "y \<le> 9999" and "mo < 100" and "d < 100"
  shows "toISOString (DateUTC y mo d h mi s ms) =
           Inr (day_precision (DateUTC y mo d h mi s ms) @ ''T'' @ isoTime h mi s ms)"
    and "length (day_precision (DateUTC y mo d h mi s ms)) = 10"
proof -
  show "toISOString (DateUTC y mo d h mi s ms) =
           Inr (day_precision (DateUTC y mo d h mi s ms) @ ''T'' @ isoTime h mi s ms)"
    using assms(1,2) by (simp add: toISOString_def day_precision_def isoDate_def isoYear_def)
  have "nat y < 10 ^ 4" using assms(1,2) by simp
  then have "length (pad 4 (nat y)) = 4" by (intro length_pad) simp_all
  moreover have "length (pad 2 mo) = 2" "length (pad 2 d) = 2"
    using assms(3,4) by (simp_all add: length_pad)
  ultimately show "length (day_precision (DateUTC y mo d h mi s ms)) = 10"
    by (simp add: day_precision_def)
qed

text \<open>A year beyond 9999 prints in the expanded form, with a sign and six digits.\<close>

lemma expanded_year_example:
  "getDate (DateUTC 12000 1 2 3 4 5 6) = Inr (JStr ''+012000-01-02'')"
  by (simp add: date_defs number_defs)

text \<open>The cache lifetime as the header value prints it.\<close>

lemma dec_expires: "dec CACHE_CONTROL_EXPIRES = ''3600''"
  by (simp add: CACHE_CONTROL_EXPIRES_def dec.simps digitChar_def)

subsection \<open>The CSV and JSON writers\<close>

lemma csv_forEach_valid:
  "\<forall>p\<in>set pwas. valid_date (created p) \<and> valid_date (updated p) \<Longrightarrow>
   csv_forEach csv pwas = Inr (csv @ map csv_row pwas)"
  by (induction pwas arbitrary: csv) (simp_all add: getDate_valid csv_row_def)

lemma csv_forEach_invalid:
  "\<exists>p\<in>set pwas. \<not> valid_date (created p) \<or> \<not> valid_date (updated p) \<Longrightarrow>
   csv_forEach csv pwas = Inl RangeError"
proof (induction pwas arbitrary: csv)
  case Nil
  then show ?case by simp
next
  case (Cons p ps)
  show ?case
  proof (cases "valid_date (created p) \<and> valid_date (updated p)")
    case True
    with Cons show ?thesis by (simp add: getDate_valid)
  next
    case False
    then show ?thesis
      by (cases "created p"; cases "updated p")
         (simp_all add: valid_date_def getDate_Invalid getDate_DateUTC)
  qed
qed

lemma json_forEach_valid:
  "\<forall>p\<in>set pwas. valid_date (created p) \<and> valid_date (updated p) \<Longrightarrow>
   json_forEach pwaList pwas = Inr (pwaList @ map json_row pwas)"
  by (induction pwas arbitrary: pwaList) (simp_all add: getDate_valid json_row_def)

lemma json_forEach_invalid:
  "\<exists>p\<in>set pwas. \<not> valid_date (created p) \<or> \<not> valid_date (updated p) \<Longrightarrow>
   json_forEach pwaList pwas = Inl RangeError"
proof (induction pwas arbitrary: pwaList)
  case Nil
  then show ?case by simp
next
  case (Cons p ps)
  show ?case
  proof (cases "valid_date (created p) \<and> valid_date (updated p)")
    case True
    with Cons show ?thesis by (simp add: getDate_valid)
  next
    case False
    then show ?thesis
      by (cases "created p"; cases "updated p")
         (simp_all add: valid_date_def getDate_Invalid getDate_DateUTC)
  qed
qed

lemma or_string_not: "v \<noteq> Some x \<Longrightarrow> x \<noteq> d \<Longrightarrow> or_string v d \<noteq> x"
  by (auto simp: or_string_def split: option.splits)

text \<open>
  C4: when every record has valid dates and the \<open>format\<close> parameter is
  absent or anything but \<open>csv\<close> or \<open>rss\<close>, the format switch
  runs the JSON writer, which sends one object per record in the order of the input,
  each with exactly the keys id, absoluteStartUrl, manifestUrl, lighthouseScore,
  webPageTest, pageSpeed, created, updated (the object handed to
  \<open>res.json\<close>; a property whose value is \<open>undefined\<close> is dropped
  later by the serialiser).
\<close>

theorem json_projection_default:
  assumes "\<forall>p\<in>set pwas. valid_date (created p) \<and> valid_date (updated p)"
    and "q_format (req_query req) \<noteq> Some ''csv''" and "q_format (req_query req) \<noteq> Some ''rss''"
  shows "\<exists>pwaList.
           format_switch e req (p_format (parse_params req)) pwas st =
             (Inr (), write_body (JsonBody pwaList) (setHeader ''Content-Type'' ''application/json'' st))
         \<and> length pwaList = length pwas
         \<and> (\<forall>i<length pwas.
              map fst (pwaList ! i) = json_keys
            \<and> pwaList ! i = jsonObject (pwas ! i) (JStr (iso_day (created (pwas ! i))))
                              (JStr (iso_day (updated (pwas ! i)))))"
proof -
  have f: "p_format (parse_params req) \<noteq> ''csv''" "p_format (parse_params req) \<noteq> ''rss''"
    using assms(2,3) by (simp_all add: parse_params_def or_string_not)
  have "format_switch e req (p_format (parse_params req)) pwas st =
      (Inr (), write_body (JsonBody (map json_row pwas)) (setHeader ''Content-Type'' ''application/json'' st))"
    using f json_forEach_valid[OF assms(1), of "[]"]
    by (simp add: format_switch_def JsonWriter_write_def)
  moreover have "\<forall>i<length pwas. map fst (map json_row pwas ! i) = json_keys"
    by (simp add: json_row_def jsonObject_def json_keys_def)
  ultimately show ?thesis
    by (intro exI[of _ "map json_row pwas"]) (simp add: json_row_def)
qed

text \<open>
  C4 on the two example records with the unknown format \<open>xml\<close>.
\<close>

theorem json_projection_default_witness:
  "valid_date (created example_a) \<and> valid_date (updated example_a)
   \<and> valid_date (created example_b) \<and> valid_date (updated example_b)
   \<and> q_format (req_query (GET None (no_query\<lparr>q_format := Some ''xml''\<rparr>))) = Some ''xml''
   \<and> p_format (parse_params (GET None (no_query\<lparr>q_format := Some ''xml''\<rparr>))) = ''xml''
   \<and> (\<exists>pwaList.
         format_switch example_env (GET None (no_query\<lparr>q_format := Some ''xml''\<rparr>)) ''xml''
             [example_a, example_b] (fresh 0) =
           (Inr (), write_body (JsonBody pwaList) (setHeader ''Content-Type'' ''application/json'' (fresh 0)))
       \<and> length pwaList = 2
       \<and> map fst (pwaList ! 0) = json_keys \<and> map fst (pwaList ! 1) = json_keys
       \<and> map_of (pwaList ! 0) ''id'' = Some (JStr ''a'') \<and> map_of (pwaList ! 1) ''id'' = Some (JStr ''b''))"
proof -
  have h1: "\<forall>p\<in>set [example_a, example_b]. valid_date (created p) \<and> valid_date (updated p)"
    by (simp add: example_defs valid_date_def)
  have h2: "q_format (req_query (GET None (no_query\<lparr>q_format := Some ''xml''\<rparr>))) \<noteq> Some ''csv''"
    and h3: "q_format (req_query (GET None (no_query\<lparr>q_format := Some ''xml''\<rparr>))) \<noteq> Some ''rss''"
    and h4: "q_format (req_query (GET None (no_query\<lparr>q_format := Some ''xml''\<rparr>))) = Some ''xml''"
    and h5: "p_format (parse_params (GET None (no_query\<lparr>q_format := Some ''xml''\<rparr>))) = ''xml''"
    by (simp_all add: param_defs)
  from json_projection_default[OF h1 h2 h3, of example_env "fresh 0"] obtain pwaList where
    p: "format_switch example_env (GET None (no_query\<lparr>q_format := Some ''xml''\<rparr>))
          (p_format (parse_params (GET None (no_query\<lparr>q_format := Some ''xml''\<rparr>))))
          [example_a, example_b] (fresh 0) =
        (Inr (), write_body (JsonBody pwaList) (setHeader ''Content-Type'' ''application/json'' (fresh 0)))"
      "length pwaList = length [example_a, example_b]"
      "\<forall>i<length [example_a, example_b]. map fst (pwaList ! i) = json_keys
          \<and> pwaList ! i = jsonObject ([example_a, example_b] ! i)
               (JStr (iso_day (created ([example_a, example_b] ! i))))
               (JStr (iso_day (updated ([example_a, example_b] ! i))))"
    by blast
  have i: "(0::nat) < length [example_a, example_b]" "(1::nat) < length [example_a, example_b]"
    by simp_all
  from p(3)[rule_format, OF i(1)] p(3)[rule_format, OF i(2)]
  have "map fst (pwaList ! 0) = json_keys \<and> map fst (pwaList ! 1) = json_keys
      \<and> map_of (pwaList ! 0) ''id'' = Some (JStr ''a'') \<and> map_of (pwaList ! 1) ''id'' = Some (JStr ''b'')"
    by (simp add: jsonObject_def example_defs json_keys_def)
  with p(1,2) h1 h4 h5 show ?thesis by (intro conjI exI[of _ pwaList]) simp_all
qed

text \<open>
  The specification's example: the two records listed as JSON.
\<close>

lemma spec_example_json:
  "map sent_body (sent (handler example_env (GET None no_query) (fresh 0))) =
     [JsonBody
       [[(''id'', JStr ''a''), (''absoluteStartUrl'', JStr ''https://foo.example/''),
         (''manifestUrl'', JStr ''https://foo.example/m.json''), (''lighthouseScore'', JNum 90),
         (''webPageTest'', JUndefined), (''pageSpeed'', JNull), (''created'', JStr ''2020-01-02''),
         (''updated'', JStr ''2020-03-04'')],
        [(''id'', JStr ''b''), (''absoluteStartUrl'', JStr ''https://bar.example/''),
         (''manifestUrl'', JStr ''https://bar.example/m.json''), (''lighthouseScore'', JNum 55),
         (''webPageTest'', JUndefined), (''pageSpeed'', JNull), (''created'', JStr ''2020-01-05''),
         (''updated'', JStr ''2020-01-05'')]]]"
  by (simp add: handler_defs date_defs number_defs)

text \<open>
  C5: when every record has valid dates, the CSV writer sends one row more than there are
  records: first the header row id, absoluteStartUrl, manifestUrl, lighthouseScore,
  created, updated, then one row per record in the order of the input, holding the
  record's id, start URL, manifest URL, score and its two dates at day precision.
\<close>

theorem csv_rows_header_and_order:
  assumes "\<forall>p\<in>set pwas. valid_date (created p) \<and> valid_date (updated p)"
  shows "\<exists>rows.
           CsvWriter_write pwas st =
             (Inr (), write_body (CsvBody rows) (setHeader ''Content-Type'' ''text/csv'' st))
         \<and> length rows = length pwas + 1
         \<and> rows ! 0 =
             [JStr ''id'', JStr ''absoluteStartUrl'', JStr ''manifestUrl'', JStr ''lighthouseScore'',
              JStr ''created'', JStr ''updated'']
         \<and> (\<forall>i<length pwas.
              rows ! (i + 1) =
                [JStr (pwa_id (pwas ! i)), JStr (absoluteStartUrl (pwas ! i)),
                 JStr (manifestUrl (pwas ! i)), lighthouseScore (pwas ! i),
                 JStr (iso_day (created (pwas ! i))), JStr (iso_day (updated (pwas ! i)))])"
  using csv_forEach_valid[OF assms, of "[]"]
  by (intro exI[of _ "csv_header # map csv_row pwas"])
     (simp add: CsvWriter_write_def csv_row_def csv_header_def csvLine_def)

text \<open>
  C5 on the two example records.
\<close>

theorem csv_rows_header_and_order_witness:
  "valid_date (created example_a) \<and> valid_date (updated example_a)
   \<and> valid_date (created example_b) \<and> valid_date (updated example_b)
   \<and> (\<exists>rows.
         CsvWriter_write [example_a, example_b] (fresh 0) =
           (Inr (), write_body (CsvBody rows) (setHeader ''Content-Type'' ''text/csv'' (fresh 0)))
       \<and> length rows = 3
       \<and> rows ! 0 =
           [JStr ''id'', JStr ''absoluteStartUrl'', JStr ''manifestUrl'', JStr ''lighthouseScore'',
            JStr ''created'', JStr ''updated'']
       \<and> rows ! 1 =
           [JStr ''a'', JStr ''https://foo.example/'', JStr ''https://foo.example/m.json'', JNum 90,
            JStr ''2020-01-02'', JStr ''2020-03-04'']
       \<and> rows ! 2 =
           [JStr ''b'', JStr ''https://bar.example/'', JStr ''https://bar.example/m.json'', JNum 55,
            JStr ''2020-01-05'', JStr ''2020-01-05''])"
proof -
  have h1: "\<forall>p\<in>set [example_a, example_b]. valid_date (created p) \<and> valid_date (updated p)"
    by (simp add: example_defs valid_date_def)
  from csv_rows_header_and_order[OF h1, of "fresh 0"] obtain rows where
    p: "CsvWriter_write [example_a, example_b] (fresh 0) =
           (Inr (), write_body (CsvBody rows) (setHeader ''Content-Type'' ''text/csv'' (fresh 0)))"
      "length rows = length [example_a, example_b] + 1"
      "rows ! 0 =
         [JStr ''id'', JStr ''absoluteStartUrl'', JStr ''manifestUrl'', JStr ''lighthouseScore'',
          JStr ''created'', JStr ''updated'']"
      "\<forall>i<length [example_a, example_b]. rows ! (i + 1) =
          [JStr (pwa_id ([example_a, example_b] ! i)), JStr (absoluteStartUrl ([example_a, example_b] ! i)),
           JStr (manifestUrl ([example_a, example_b] ! i)), lighthouseScore ([example_a, example_b] ! i),
           JStr (iso_day (created ([example_a, example_b] ! i))),
           JStr (iso_day (updated ([example_a, example_b] ! i)))]"
    by blast
  have i: "(0::nat) < length [example_a, example_b]" "(1::nat) < length [example_a, example_b]"
    by simp_all
  from p(4)[rule_format, OF i(1)] p(4)[rule_format, OF i(2)]
  have "rows ! 1 =
           [JStr ''a'', JStr ''https://foo.example/'', JStr ''https://foo.example/m.json'', JNum 90,
            JStr ''2020-01-02'', JStr ''2020-03-04'']
       \<and> rows ! 2 =
           [JStr ''b'', JStr ''https://bar.example/'', JStr ''https://bar.example/m.json'', JNum 55,
            JStr ''2020-01-05'', JStr ''2020-01-05'']"
    by (simp add: example_defs numeral_2_eq_2 iso_day_def isoDate_def isoYear_def pad_def dec.simps digitChar_def)
  with p(1,2,3) h1 show ?thesis by (intro conjI exI[of _ rows]) simp_all
qed

text \<open>
  The whole handler on a listing: when the store returns records with valid dates, the
  one response has status 200 and the CSV rows, or the JSON objects, of exactly those
  records in the order the store gave them.
\<close>

lemma handler_csv_listing:
  assumes "params_id req = None \<or> params_id req = Some []"
    and "q_format (req_query req) = Some ''csv''"
    and "pwaLib_list e (p_skip (parse_params req)) (p_limit (parse_params req)) (p_sort (parse_params req)) = Inr pwas"
    and "\<forall>p\<in>set pwas. valid_date (created p) \<and> valid_date (updated p)"
  shows "sent (handler e req (fresh t)) =
           [\<lparr>sent_status = 200,
             sent_headers = [''Cache-Control'' \<mapsto> ''public, max-age=3600'', ''Content-Type'' \<mapsto> ''text/csv''],
             sent_body = CsvBody (csv_header # map csv_row pwas)\<rparr>]"
proof -
  have f: "p_format (parse_params req) = ''csv''"
    using assms(2) by (simp add: parse_params_def or_string_def)
  show ?thesis
    using assms(1,3) f csv_forEach_valid[OF assms(4), of "[]"]
    by (auto simp: handler_def Let_def dec_expires then_catch_def format_switch_def CsvWriter_write_def
        write_body_def setHeader_def fresh_def)
qed

lemma handler_json_listing:
  assumes "params_id req = None \<or> params_id req = Some []"
    and "q_format (req_query req) \<noteq> Some ''csv''" and "q_format (req_query req) \<noteq> Some ''rss''"
    and "pwaLib_list e (p_skip (parse_params req)) (p_limit (parse_params req)) (p_sort (parse_params req)) = Inr pwas"
    and "\<forall>p\<in>set pwas. valid_date (created p) \<and> valid_date (updated p)"
  shows "sent (handler e req (fresh t)) =
           [\<lparr>sent_status = 200,
             sent_headers = [''Cache-Control'' \<mapsto> ''public, max-age=3600'', ''Content-Type'' \<mapsto> ''application/json''],
             sent_body = JsonBody (map json_row pwas)\<rparr>]"
proof -
  have f: "p_format (parse_params req) \<noteq> ''csv''" "p_format (parse_params req) \<noteq> ''rss''"
    using assms(2,3) by (simp_all add: parse_params_def or_string_not)
  show ?thesis
    using assms(1,4) f json_forEach_valid[OF assms(5), of "[]"]
    by (auto simp: handler_def Let_def dec_expires then_catch_def format_switch_def JsonWriter_write_def
        write_body_def setHeader_def fresh_def)
qed

subsection \<open>The rendering loop and the feed\<close>

lemma render_effect:
  assumes "render e view arg st = (r, st')"
  shows "renders st' = renders st @ [\<lparr>r_pwa = pwa_id (arg_pwa arg), r_begin = clock st, r_end = clock st'\<rparr>]"
    and "clock st \<le> clock st'"
    and "sent st' = sent st" and "headers st' = headers st" and "statusCode st' = statusCode st"
    and "unhandled st' = unhandled st"
  using assms
  by (auto simp: render_def console_log_def Let_def split: prod.splits sum.splits)

lemma renderOnePwaRss_effect:
  assumes "renderOnePwaRss e p req st = (r, st')"
  shows "renders st' = renders st @ [\<lparr>r_pwa = pwa_id p, r_begin = clock st, r_end = clock st'\<rparr>]"
    and "clock st \<le> clock st'"
    and "sent st' = sent st" and "headers st' = headers st" and "statusCode st' = statusCode st"
    and "unhandled st' = unhandled st"
  using assms render_effect[of e "''pwas/view-rss.hbs''" _ st r st']
  by (auto simp: renderOnePwaRss_def Let_def)

lemma rss_callback_cases:
  assumes "rss_callback e req p i s = (r, s')"
  obtains (fail) err where "r = Inl err" "fst s' = fst s" "renderOnePwaRss e p req (snd s) = (Inl err, snd s')"
  | (ok) h where "r = Inr ()" "fst s' = feed_item (rss_item_of p h) (fst s)" "renderOnePwaRss e p req (snd s) = (Inr h, snd s')"
  using assms by (auto simp: rss_callback_def split: prod.splits sum.splits)

lemma asyncForEach_from_preserves:
  "(\<And>x i s r s'. P s \<Longrightarrow> callback x i s = (r, s') \<Longrightarrow> P s') \<Longrightarrow>
   P s \<Longrightarrow> asyncForEach_from i array callback s = (r, s') \<Longrightarrow> P s'"
proof (induction i array callback s rule: asyncForEach_from.induct)
  case (1 index array callback s)
  show ?case
  proof (cases "index < length array")
    case False
    with 1(4) have "s' = s" by (simp add: asyncForEach_from.simps)
    with 1(3) show ?thesis by simp
  next
    case True
    obtain r1 s1 where c: "callback (array ! index) index s = (r1, s1)" by (cases "callback (array ! index) index s")
    have P1: "P s1" using 1(2)[OF 1(3) c] .
    show ?thesis
    proof (cases r1)
      case (Inl err)
      with True c 1(4) have "s' = s1" by (simp add: asyncForEach_from.simps)
      with P1 show ?thesis by simp
    next
      case (Inr u)
      with True c 1(4) have "asyncForEach_from (index + 1) array callback s1 = (r, s')"
        by (simp add: asyncForEach_from.simps)
      from 1(1)[OF True c[symmetric] Inr 1(2) P1 this] show ?thesis .
    qed
  qed
qed

lemma rss_loop_items:
  "asyncForEach_from i pwas (rss_callback e req) s = (r, s') \<Longrightarrow>
   \<exists>htmls. items (fst s') = items (fst s) @ map (\<lambda>(p, h). rss_item_of p h) (zip (drop i pwas) htmls)
     \<and> length htmls \<le> length pwas - i \<and> (r = Inr () \<longrightarrow> length htmls = length pwas - i)"
proof (induction i pwas "rss_callback e req" s rule: asyncForEach_from.induct)
  case (1 index array s)
  show ?case
  proof (cases "index < length array")
    case False
    with 1(2) have "s' = s" "r = Inr ()" by (simp_all add: asyncForEach_from.simps)
    with False show ?thesis by (intro exI[of _ "[]"]) simp
  next
    case True
    obtain r1 s1 where c: "rss_callback e req (array ! index) index s = (r1, s1)"
      by (cases "rss_callback e req (array ! index) index s")
    from c show ?thesis
    proof (cases rule: rss_callback_cases)
      case (fail err)
      with True c 1(2) have "s' = s1" "r = Inl err" by (simp_all add: asyncForEach_from.simps)
      with fail show ?thesis by (intro exI[of _ "[]"]) simp
    next
      case (ok h)
      with True c 1(2) have rest: "asyncForEach_from (index + 1) array (rss_callback e req) s1 = (r, s')"
        by (simp add: asyncForEach_from.simps)
      from 1(1)[OF True c[symmetric] ok(1) rest]
      obtain htmls where hs: "items (fst s') = items (fst s1) @ map (\<lambda>(p, h). rss_item_of p h) (zip (drop (index + 1) array) htmls)"
        "length htmls \<le> length array - (index + 1)" "r = Inr () \<longrightarrow> length htmls = length array - (index + 1)"
        by auto
      have d: "drop index array = array ! index # drop (index + 1) array"
        using True by (simp add: Cons_nth_drop_Suc)
      show ?thesis
        using hs ok(2) True
        by (intro exI[of _ "h # htmls"]) (auto simp: d feed_item_def)
    qed
  qed
qed

lemma rss_callback_keeps:
  assumes "rss_callback e req p i s = (r, s')"
  shows "sent (snd s') = sent (snd s)" and "headers (snd s') = headers (snd s)"
    and "statusCode (snd s') = statusCode (snd s)" and "unhandled (snd s') = unhandled (snd s)"
    and "\<exists>its. fst s' = (fst s)\<lparr>items := its\<rparr>"
proof -
  from assms show "sent (snd s') = sent (snd s)"
    by (cases rule: rss_callback_cases) (auto dest: renderOnePwaRss_effect(3))
  from assms show "headers (snd s') = headers (snd s)"
    by (cases rule: rss_callback_cases) (auto dest: renderOnePwaRss_effect(4))
  from assms show "statusCode (snd s') = statusCode (snd s)"
    by (cases rule: rss_callback_cases) (auto dest: renderOnePwaRss_effect(5))
  from assms show "unhandled (snd s') = unhandled (snd s)"
    by (cases rule: rss_callback_cases) (auto dest: renderOnePwaRss_effect(6))
  from assms show "\<exists>its. fst s' = (fst s)\<lparr>items := its\<rparr>"
  proof (cases rule: rss_callback_cases)
    case (fail err)
    then show ?thesis by (intro exI[of _ "items (fst s)"]) simp
  next
    case (ok h)
    then show ?thesis by (auto simp: feed_item_def)
  qed
qed

lemma rss_loop_keeps:
  assumes "asyncForEach_from i pwas (rss_callback e req) s = (r, s')"
  shows "sent (snd s') = sent (snd s) \<and> headers (snd s') = headers (snd s)
       \<and> statusCode (snd s') = statusCode (snd s) \<and> unhandled (snd s') = unhandled (snd s)
       \<and> (\<exists>its. fst s' = (fst s)\<lparr>items := its\<rparr>)"
proof (rule asyncForEach_from_preserves[where callback = "rss_callback e req" and s = s
      and P = "\<lambda>x. sent (snd x) = sent (snd s) \<and> headers (snd x) = headers (snd s)
       \<and> statusCode (snd x) = statusCode (snd s) \<and> unhandled (snd x) = unhandled (snd s)
       \<and> (\<exists>its. fst x = (fst s)\<lparr>items := its\<rparr>)", OF _ _ assms])
  show "sent (snd s) = sent (snd s) \<and> headers (snd s) = headers (snd s)
       \<and> statusCode (snd s) = statusCode (snd s) \<and> unhandled (snd s) = unhandled (snd s)
       \<and> (\<exists>its. fst s = (fst s)\<lparr>items := its\<rparr>)"
    by (auto intro: exI[of _ "items (fst s)"])
next
  fix x i a r' b
  assume P: "sent (snd a) = sent (snd s) \<and> headers (snd a) = headers (snd s)
       \<and> statusCode (snd a) = statusCode (snd s) \<and> unhandled (snd a) = unhandled (snd s)
       \<and> (\<exists>its. fst a = (fst s)\<lparr>items := its\<rparr>)"
    and c: "rss_callback e req x i a = (r', b)"
  from P obtain its where its: "fst a = (fst s)\<lparr>items := its\<rparr>" by blast
  from rss_callback_keeps(5)[OF c] obtain its' where "fst b = (fst a)\<lparr>items := its'\<rparr>" by blast
  with its have "fst b = (fst s)\<lparr>items := its'\<rparr>" by simp
  then show "sent (snd b) = sent (snd s) \<and> headers (snd b) = headers (snd s)
       \<and> statusCode (snd b) = statusCode (snd s) \<and> unhandled (snd b) = unhandled (snd s)
       \<and> (\<exists>its. fst b = (fst s)\<lparr>items := its\<rparr>)"
    using P rss_callback_keeps(1-4)[OF c] by auto
qed

lemma start_cases:
  assumes "start e req pwas f st = (r, st')"
  obtains (rejected) err where "r = Inl err" "sent st' = sent st" "headers st' = headers st"
      "unhandled st' = unhandled st"
  | (sent) htmls where "r = Inr ()" "length htmls = length pwas"
      "sent st' = sent st @
         [\<lparr>sent_status = 200,
           sent_headers = (headers st)(''Content-Type'' \<mapsto> ''application/rss+xml''),
           sent_body = XmlBody (f\<lparr>items := items f @ map (\<lambda>(p, h). rss_item_of p h) (zip pwas htmls)\<rparr>)\<rparr>]"
      "headers st' = (headers st)(''Content-Type'' \<mapsto> ''application/rss+xml'')"
      "unhandled st' = unhandled st"
proof -
  obtain r1 f1 st1 where l: "asyncForEach_from 0 pwas (rss_callback e req) (f, st) = (r1, (f1, st1))"
    by (metis surj_pair)
  from rss_loop_keeps[OF l] obtain its where
    k: "sent st1 = sent st" "headers st1 = headers st" "unhandled st1 = unhandled st"
       "f1 = f\<lparr>items := its\<rparr>"
    by auto
  from rss_loop_items[OF l] obtain htmls where
    h: "items f1 = items f @ map (\<lambda>(p, h). rss_item_of p h) (zip pwas htmls)"
       "length htmls \<le> length pwas" "r1 = Inr () \<longrightarrow> length htmls = length pwas"
    by auto
  show thesis
  proof (cases r1)
    case (Inl err)
    with assms l have "r = Inl err" "st' = st1" by (simp_all add: start_def asyncForEach_def)
    with k show thesis by (intro rejected[of err]) simp_all
  next
    case (Inr u)
    with assms l have r: "r = Inr ()"
      "st' = write_body (XmlBody f1) (status 200 (setHeader ''Content-Type'' ''application/rss+xml'' st1))"
      by (simp_all add: start_def asyncForEach_def)
    have f1: "f1 = f\<lparr>items := items f @ map (\<lambda>(p, h). rss_item_of p h) (zip pwas htmls)\<rparr>"
      using k(4) h(1) by simp
    show thesis
      using r k h(3) Inr f1
      by (intro sent[of htmls]) (simp_all add: write_body_def status_def setHeader_def)
  qed
qed

lemma map_item_zip:
  "length htmls = length pwas \<Longrightarrow>
   map item_guid (map (\<lambda>(p, h). rss_item_of p h) (zip pwas htmls)) = map pwa_id pwas
   \<and> map item_date (map (\<lambda>(p, h). rss_item_of p h) (zip pwas htmls)) = map created pwas
   \<and> map item_title (map (\<lambda>(p, h). rss_item_of p h) (zip pwas htmls)) = map displayName pwas"
  by (induction pwas htmls rule: list_induct2') (simp_all add: rss_item_of_def)

subsection \<open>Day precision in JSON and CSV, the raw date in RSS\<close>

text \<open>
  C6: for records with valid timestamps, the \<open>created\<close> and
  \<open>updated\<close> values of the JSON objects and of the CSV lines are the
  timestamps at day precision: the calendar day as the ISO rendering prints it, the time
  of day dropped, which is \<open>YYYY-MM-DD\<close> for every year that four digits can
  write. The publish dates of the items of a feed that is sent are the records'
  \<open>created\<close> values as they are.
\<close>

theorem dates_day_precision_rss_raw:
  assumes "\<forall>p\<in>set pwas. valid_date (created p) \<and> valid_date (updated p)"
  shows "json_forEach [] pwas =
           Inr (map (\<lambda>p. jsonObject p (JStr (iso_day (created p))) (JStr (iso_day (updated p)))) pwas)
       \<and> csv_forEach [] pwas =
           Inr (map (\<lambda>p. csvLine p (JStr (iso_day (created p))) (JStr (iso_day (updated p)))) pwas)
       \<and> (\<forall>p\<in>set pwas.
             (four_digit_year (created p) \<longrightarrow> iso_day (created p) = day_precision (created p))
           \<and> (four_digit_year (updated p) \<longrightarrow> iso_day (updated p) = day_precision (updated p)))
       \<and> (\<forall>p c u. map_of (jsonObject p c u) ''created'' = Some c
                \<and> map_of (jsonObject p c u) ''updated'' = Some u
                \<and> csvLine p c u ! 4 = c \<and> csvLine p c u ! 5 = u)
       \<and> (fst (start e req pwas (new_feed (now e)) st) = Inr () \<longrightarrow>
             (\<exists>f. sent (snd (start e req pwas (new_feed (now e)) st)) = sent st @
                     [\<lparr>sent_status = 200,
                       sent_headers = (headers st)(''Content-Type'' \<mapsto> ''application/rss+xml''),
                       sent_body = XmlBody f\<rparr>]
                \<and> map item_date (items f) = map created pwas))"
proof (intro conjI allI impI ballI)
  show "json_forEach [] pwas =
           Inr (map (\<lambda>p. jsonObject p (JStr (iso_day (created p))) (JStr (iso_day (updated p)))) pwas)"
    using json_forEach_valid[OF assms, of "[]"] by (simp add: json_row_def)
  show "csv_forEach [] pwas =
           Inr (map (\<lambda>p. csvLine p (JStr (iso_day (created p))) (JStr (iso_day (updated p)))) pwas)"
    using csv_forEach_valid[OF assms, of "[]"] by (simp add: csv_row_def)
next
  fix p :: pwa assume "four_digit_year (created p)"
  then show "iso_day (created p) = day_precision (created p)" by (rule iso_day_four_digit)
next
  fix p :: pwa assume "four_digit_year (updated p)"
  then show "iso_day (updated p) = day_precision (updated p)" by (rule iso_day_four_digit)
next
  fix p c u
  show "map_of (jsonObject p c u) ''created'' = Some c" "map_of (jsonObject p c u) ''updated'' = Some u"
    "csvLine p c u ! 4 = c" "csvLine p c u ! 5 = u"
    by (simp_all add: jsonObject_def csvLine_def)
next
  assume "fst (start e req pwas (new_feed (now e)) st) = Inr ()"
  then obtain st' where s: "start e req pwas (new_feed (now e)) st = (Inr (), st')"
    by (cases "start e req pwas (new_feed (now e)) st") auto
  from s have "\<exists>f. sent st' = sent st @
                     [\<lparr>sent_status = 200,
                       sent_headers = (headers st)(''Content-Type'' \<mapsto> ''application/rss+xml''),
                       sent_body = XmlBody f\<rparr>]
                \<and> map item_date (items f) = map created pwas"
  proof (cases rule: start_cases)
    case (rejected err)
    then show ?thesis by simp
  next
    case (sent htmls)
    with map_item_zip[OF sent(2)] show ?thesis by (simp add: new_feed_def)
  qed
  with s show "\<exists>f. sent (snd (start e req pwas (new_feed (now e)) st)) = sent st @
                     [\<lparr>sent_status = 200,
                       sent_headers = (headers st)(''Content-Type'' \<mapsto> ''application/rss+xml''),
                       sent_body = XmlBody f\<rparr>]
                \<and> map item_date (items f) = map created pwas"
    by simp
qed

text \<open>
  C6 on the two example records.
\<close>

theorem dates_day_precision_rss_raw_witness:
  "valid_date (created example_a) \<and> valid_date (updated example_a)
   \<and> valid_date (created example_b) \<and> valid_date (updated example_b)
   \<and> four_digit_year (created example_a) \<and> four_digit_year (updated example_a)
   \<and> four_digit_year (created example_b) \<and> four_digit_year (updated example_b)
   \<and> json_forEach [] [example_a, example_b] =
        Inr [jsonObject example_a (JStr ''2020-01-02'') (JStr ''2020-03-04''),
             jsonObject example_b (JStr ''2020-01-05'') (JStr ''2020-01-05'')]
   \<and> csv_forEach [] [example_a, example_b] =
        Inr [csvLine example_a (JStr ''2020-01-02'') (JStr ''2020-03-04''),
             csvLine example_b (JStr ''2020-01-05'') (JStr ''2020-01-05'')]
   \<and> fst (start example_env (GET None no_query) [example_a, example_b] (new_feed (now example_env)) (fresh 0)) = Inr ()
   \<and> (\<exists>f. map sent_body (sent (snd (start example_env (GET None no_query) [example_a, example_b]
                (new_feed (now example_env)) (fresh 0)))) = [XmlBody f]
          \<and> map item_date (items f) = [DateUTC 2020 1 2 10 0 0 0, DateUTC 2020 1 5 0 0 0 0])"
proof -
  have h: "\<forall>p\<in>set [example_a, example_b]. valid_date (created p) \<and> valid_date (updated p)"
    by (simp add: example_defs valid_date_def)
  have y: "four_digit_year (created example_a)" "four_digit_year (updated example_a)"
    "four_digit_year (created example_b)" "four_digit_year (updated example_b)"
    by (simp_all add: example_defs four_digit_year_def)
  have d: "day_precision (created example_a) = ''2020-01-02''" "day_precision (updated example_a) = ''2020-03-04''"
    "day_precision (created example_b) = ''2020-01-05''" "day_precision (updated example_b) = ''2020-01-05''"
    by (simp_all add: example_defs day_precision_def pad_def dec.simps digitChar_def)
  have c: "created example_a = DateUTC 2020 1 2 10 0 0 0" "created example_b = DateUTC 2020 1 5 0 0 0 0"
    by (simp_all add: example_defs)
  have r: "fst (start example_env (GET None no_query) [example_a, example_b] (new_feed (now example_env)) (fresh 0)) = Inr ()"
    by (simp add: writer_defs example_defs response_defs GET_def no_query_def Let_def)
  note t = dates_day_precision_rss_raw[OF h, of example_env "GET None no_query" "fresh 0"]
  from t y d have i: "iso_day (created example_a) = ''2020-01-02''" "iso_day (updated example_a) = ''2020-03-04''"
    "iso_day (created example_b) = ''2020-01-05''" "iso_day (updated example_b) = ''2020-01-05''"
    by simp_all
  from t i have j: "json_forEach [] [example_a, example_b] =
        Inr [jsonObject example_a (JStr ''2020-01-02'') (JStr ''2020-03-04''),
             jsonObject example_b (JStr ''2020-01-05'') (JStr ''2020-01-05'')]"
    and v: "csv_forEach [] [example_a, example_b] =
        Inr [csvLine example_a (JStr ''2020-01-02'') (JStr ''2020-03-04''),
             csvLine example_b (JStr ''2020-01-05'') (JStr ''2020-01-05'')]"
    by simp_all
  from t r c have x: "\<exists>f. map sent_body (sent (snd (start example_env (GET None no_query) [example_a, example_b]
                (new_feed (now example_env)) (fresh 0)))) = [XmlBody f]
          \<and> map item_date (items f) = [DateUTC 2020 1 2 10 0 0 0, DateUTC 2020 1 5 0 0 0 0]"
    by (auto simp: fresh_def)
  from h y j v r x show ?thesis by simp
qed

subsection \<open>What reaches the listing call\<close>

lemma NumberValue_not_NaN: "NumberValue i \<noteq> NaN"
  by (simp add: NumberValue_def Let_def)

lemma parseInt_string_NaN_iff:
  "(parseInt_string s = NaN) = (leading_digits s = [])"
  by (simp add: parseInt_string_def Let_def NumberValue_not_NaN)

lemma isWhiteSpace_iff:
  "isWhiteSpace c = (c \<in> {CHR 0x09, CHR 0x0A, CHR 0x0B, CHR 0x0C, CHR 0x0D, CHR 0x20, CHR 0xA0})"
  by (simp add: isWhiteSpace_def)

lemma isDigit_iff: "isDigit c = (c \<in> set ''0123456789'')"
  by (simp add: isDigit_def)

lemma digit_plain: "isDigit c \<Longrightarrow> \<not> isWhiteSpace c \<and> c \<noteq> CHR ''+'' \<and> c \<noteq> CHR ''-''"
  by (auto simp: isDigit_def isWhiteSpace_def)

lemma sign_not_white: "\<not> isWhiteSpace CHR ''+''" "\<not> isWhiteSpace CHR ''-''"
  by (simp_all add: isWhiteSpace_def)

lemma leading_digits_white:
  assumes "set ws \<subseteq> {CHR 0x09, CHR 0x0A, CHR 0x0B, CHR 0x0C, CHR 0x0D, CHR 0x20, CHR 0xA0}"
  shows "leading_digits (ws @ t) = leading_digits t"
proof -
  have "\<And>x. x \<in> set ws \<Longrightarrow> isWhiteSpace x" using assms by (auto simp: isWhiteSpace_iff)
  then have "dropWhile isWhiteSpace (ws @ t) = dropWhile isWhiteSpace t" by (rule dropWhile_append2)
  then show ?thesis by (simp add: leading_digits_def)
qed

lemma leading_digits_plain:
  "\<not> isWhiteSpace c \<Longrightarrow> c \<noteq> CHR ''+'' \<Longrightarrow> c \<noteq> CHR ''-'' \<Longrightarrow>
   leading_digits (c # cs) = takeWhile isDigit (c # cs)"
  by (simp add: leading_digits_def)

lemma leading_digits_sign:
  "c = CHR ''+'' \<or> c = CHR ''-'' \<Longrightarrow> leading_digits (c # cs) = takeWhile isDigit cs"
  by (auto simp: leading_digits_def sign_not_white)

lemma leading_digits_Nil: "leading_digits [] = []"
  by (simp add: leading_digits_def)

lemma leading_digits_none:
  assumes "set ws \<subseteq> {CHR 0x09, CHR 0x0A, CHR 0x0B, CHR 0x0C, CHR 0x0D, CHR 0x20, CHR 0xA0}"
    and "sg = [] \<or> sg = ''+'' \<or> sg = ''-''"
    and "case rest of [] \<Rightarrow> True
         | c # _ \<Rightarrow> c \<notin> set ''0123456789'' \<and>
             (sg = [] \<longrightarrow> c \<notin> {CHR 0x09, CHR 0x0A, CHR 0x0B, CHR 0x0C, CHR 0x0D, CHR 0x20, CHR 0xA0,
                                CHR ''+'', CHR ''-''})"
  shows "leading_digits (ws @ sg @ rest) = []"
proof -
  have t: "takeWhile isDigit rest = []"
    using assms(3) by (cases rest) (simp_all add: isDigit_iff)
  have "leading_digits (sg @ rest) = []"
  proof (cases "sg = []")
    case True
    show ?thesis
    proof (cases rest)
      case Nil
      with True show ?thesis by (simp add: leading_digits_Nil)
    next
      case (Cons c cs)
      with assms(3) True have "\<not> isWhiteSpace c" "c \<noteq> CHR ''+''" "c \<noteq> CHR ''-''"
        by (simp_all add: isWhiteSpace_iff)
      then have "leading_digits (c # cs) = takeWhile isDigit (c # cs)" by (rule leading_digits_plain)
      with t True Cons show ?thesis by simp
    qed
  next
    case False
    with assms(2) obtain c where c: "sg = [c]" "c = CHR ''+'' \<or> c = CHR ''-''" by auto
    from c(2) have "leading_digits (c # rest) = takeWhile isDigit rest" by (rule leading_digits_sign)
    with t c(1) show ?thesis by simp
  qed
  then show ?thesis using leading_digits_white[OF assms(1), of "sg @ rest"] by simp
qed

lemma leading_digits_some:
  assumes "set ws \<subseteq> {CHR 0x09, CHR 0x0A, CHR 0x0B, CHR 0x0C, CHR 0x0D, CHR 0x20, CHR 0xA0}"
    and "sg = [] \<or> sg = ''+'' \<or> sg = ''-''"
    and "ds \<noteq> []" and "set ds \<subseteq> set ''0123456789''"
  shows "leading_digits (ws @ sg @ ds @ rest) \<noteq> []"
proof -
  from assms(3,4) obtain d ds' where ds: "ds = d # ds'" "isDigit d"
    by (cases ds) (auto simp: isDigit_iff)
  have t: "takeWhile isDigit (d # ds' @ rest) \<noteq> []" using ds(2) by simp
  have "leading_digits (sg @ d # ds' @ rest) \<noteq> []"
  proof (cases "sg = []")
    case True
    from digit_plain[OF ds(2)]
    have "leading_digits (d # ds' @ rest) = takeWhile isDigit (d # ds' @ rest)"
      by (intro leading_digits_plain) simp_all
    with t True show ?thesis by simp
  next
    case False
    with assms(2) obtain c where c: "sg = [c]" "c = CHR ''+'' \<or> c = CHR ''-''" by auto
    from c(2) have "leading_digits (c # d # ds' @ rest) = takeWhile isDigit (d # ds' @ rest)"
      by (rule leading_digits_sign)
    with t c(1) show ?thesis by simp
  qed
  then show ?thesis using leading_digits_white[OF assms(1), of "sg @ ds @ rest"] ds(1) by simp
qed

lemma parseInt_undefined: "parseInt None = NaN"
  by (simp add: parseInt_def ToString_def parseInt_string_NaN_iff leading_digits_def
      isWhiteSpace_def isDigit_def)

text \<open>Beyond \<open>2^53\<close> the result is the nearest double, not the integer the digits spell.\<close>

lemma bit_length_example: "bit_length 9007199254740993 = 54"
  by (simp add: bit_length.simps)

lemma parseInt_rounds_to_double:
  "parseInt (Some ''9007199254740993'') = Num 9007199254740992"
proof -
  have "mathInt 0 ''9007199254740993'' = 9007199254740993"
    by (simp add: digitValue_def)
  moreover have "leading_digits ''9007199254740993'' = ''9007199254740993''"
    by (simp add: leading_digits_def isWhiteSpace_def isDigit_def)
  moreover have "roundTiesToEven 9007199254740993 = 9007199254740992"
    by (simp add: roundTiesToEven_def bit_length_example Let_def)
  ultimately show ?thesis
    by (simp add: parseInt_def ToString_def parseInt_string_def NumberValue_def isWhiteSpace_def)
qed

text \<open>
  C8 as stated fails: \<open>12abc\<close> is not a number, yet the skip passed to the
  listing is 12.
\<close>

theorem skip_digit_prefix_counterexample:
  "\<not> numeric ''12abc''
   \<and> p_skip (parse_params (GET None (no_query\<lparr>q_skip := Some ''12abc''\<rparr>))) = Num 12"
  by (simp add: numeric_def param_defs)

text \<open>
  C8, amended: the skip passed to the listing is unset, that is \<open>NaN\<close>, when the
  query-string skip is absent, and when after its leading white space and one optional
  sign no decimal digit follows. A value in which a digit does follow there, such as
  \<open>12abc\<close>, is passed as a number although it is not numeric. The limit is 100
  when the query-string limit is absent.
\<close>

theorem skip_unset_without_leading_digit:
  "(q_skip (req_query req) = None \<longrightarrow> p_skip (parse_params req) = NaN)
   \<and> (\<forall>ws sg rest.
         q_skip (req_query req) = Some (ws @ sg @ rest)
         \<and> set ws \<subseteq> {CHR 0x09, CHR 0x0A, CHR 0x0B, CHR 0x0C, CHR 0x0D, CHR 0x20, CHR 0xA0}
         \<and> (sg = [] \<or> sg = ''+'' \<or> sg = ''-'')
         \<and> (case rest of [] \<Rightarrow> True
             | c # _ \<Rightarrow> c \<notin> set ''0123456789'' \<and>
                 (sg = [] \<longrightarrow> c \<notin> {CHR 0x09, CHR 0x0A, CHR 0x0B, CHR 0x0C, CHR 0x0D, CHR 0x20,
                                    CHR 0xA0, CHR ''+'', CHR ''-''}))
         \<longrightarrow> p_skip (parse_params req) = NaN)
   \<and> (\<forall>ws sg ds rest.
         q_skip (req_query req) = Some (ws @ sg @ ds @ rest)
         \<and> set ws \<subseteq> {CHR 0x09, CHR 0x0A, CHR 0x0B, CHR 0x0C, CHR 0x0D, CHR 0x20, CHR 0xA0}
         \<and> (sg = [] \<or> sg = ''+'' \<or> sg = ''-'')
         \<and> ds \<noteq> [] \<and> set ds \<subseteq> set ''0123456789''
         \<longrightarrow> p_skip (parse_params req) \<noteq> NaN)
   \<and> (q_limit (req_query req) = None \<longrightarrow> p_limit (parse_params req) = Num 100)"
proof (intro conjI allI impI)
  assume "q_skip (req_query req) = None"
  then show "p_skip (parse_params req) = NaN"
    by (simp add: parse_params_def parseInt_undefined)
next
  fix ws sg rest
  assume a: "q_skip (req_query req) = Some (ws @ sg @ rest)
         \<and> set ws \<subseteq> {CHR 0x09, CHR 0x0A, CHR 0x0B, CHR 0x0C, CHR 0x0D, CHR 0x20, CHR 0xA0}
         \<and> (sg = [] \<or> sg = ''+'' \<or> sg = ''-'')
         \<and> (case rest of [] \<Rightarrow> True
             | c # _ \<Rightarrow> c \<notin> set ''0123456789'' \<and>
                 (sg = [] \<longrightarrow> c \<notin> {CHR 0x09, CHR 0x0A, CHR 0x0B, CHR 0x0C, CHR 0x0D, CHR 0x20,
                                    CHR 0xA0, CHR ''+'', CHR ''-''}))"
  from a have q: "q_skip (req_query req) = Some (ws @ sg @ rest)" by (rule conjunct1)
  from a have w: "set ws \<subseteq> {CHR 0x09, CHR 0x0A, CHR 0x0B, CHR 0x0C, CHR 0x0D, CHR 0x20, CHR 0xA0}"
    by (rule conjunct2[THEN conjunct1])
  from a have s: "sg = [] \<or> sg = ''+'' \<or> sg = ''-''"
    by (rule conjunct2[THEN conjunct2, THEN conjunct1])
  from a have r: "case rest of [] \<Rightarrow> True
             | c # _ \<Rightarrow> c \<notin> set ''0123456789'' \<and>
                 (sg = [] \<longrightarrow> c \<notin> {CHR 0x09, CHR 0x0A, CHR 0x0B, CHR 0x0C, CHR 0x0D, CHR 0x20,
                                    CHR 0xA0, CHR ''+'', CHR ''-''})"
    by (rule conjunct2[THEN conjunct2, THEN conjunct2])
  have "leading_digits (ws @ sg @ rest) = []"
    using w s r by (rule leading_digits_none)
  then have "parseInt_string (ws @ sg @ rest) = NaN"
    by (simp only: parseInt_string_NaN_iff)
  with q show "p_skip (parse_params req) = NaN"
    by (simp add: parse_params_def parseInt_def ToString_def)
next
  fix ws sg ds rest
  assume a: "q_skip (req_query req) = Some (ws @ sg @ ds @ rest)
         \<and> set ws \<subseteq> {CHR 0x09, CHR 0x0A, CHR 0x0B, CHR 0x0C, CHR 0x0D, CHR 0x20, CHR 0xA0}
         \<and> (sg = [] \<or> sg = ''+'' \<or> sg = ''-'')
         \<and> ds \<noteq> [] \<and> set ds \<subseteq> set ''0123456789''"
  from a have q: "q_skip (req_query req) = Some (ws @ sg @ ds @ rest)" by (rule conjunct1)
  from a have w: "set ws \<subseteq> {CHR 0x09, CHR 0x0A, CHR 0x0B, CHR 0x0C, CHR 0x0D, CHR 0x20, CHR 0xA0}"
    by (rule conjunct2[THEN conjunct1])
  from a have s: "sg = [] \<or> sg = ''+'' \<or> sg = ''-''"
    by (rule conjunct2[THEN conjunct2, THEN conjunct1])
  from a have d: "ds \<noteq> []"
    by (rule conjunct2[THEN conjunct2, THEN conjunct2, THEN conjunct1])
  from a have e: "set ds \<subseteq> set ''0123456789''"
    by (rule conjunct2[THEN conjunct2, THEN conjunct2, THEN conjunct2])
  have "leading_digits (ws @ sg @ ds @ rest) \<noteq> []"
    using w s d e by (rule leading_digits_some)
  then have "parseInt_string (ws @ sg @ ds @ rest) \<noteq> NaN"
    by (simp add: parseInt_string_NaN_iff)
  with q show "p_skip (parse_params req) \<noteq> NaN"
    by (simp add: parse_params_def parseInt_def ToString_def)
next
  assume "q_limit (req_query req) = None"
  then show "p_limit (parse_params req) = Num 100"
    by (simp add: parse_params_def parseInt_undefined or_number_def)
qed

text \<open>
  The amended C8 on a request without parameters and on the skips \<open>abc\<close>, \<open> -x\<close>,
  \<open>12abc\<close> and \<open> +7\<close>.
\<close>

theorem skip_unset_without_leading_digit_witness:
  "q_skip (req_query (GET None no_query)) = None
   \<and> p_skip (parse_params (GET None no_query)) = NaN
   \<and> q_limit (req_query (GET None no_query)) = None
   \<and> p_limit (parse_params (GET None no_query)) = Num 100
   \<and> q_skip (req_query (GET None (no_query\<lparr>q_skip := Some ''abc''\<rparr>))) = Some ([] @ [] @ ''abc'')
   \<and> p_skip (parse_params (GET None (no_query\<lparr>q_skip := Some ''abc''\<rparr>))) = NaN
   \<and> q_skip (req_query (GET None (no_query\<lparr>q_skip := Some '' -x''\<rparr>))) = Some ('' '' @ ''-'' @ ''x'')
   \<and> p_skip (parse_params (GET None (no_query\<lparr>q_skip := Some '' -x''\<rparr>))) = NaN
   \<and> q_skip (req_query (GET None (no_query\<lparr>q_skip := Some ''12abc''\<rparr>))) = Some ([] @ [] @ ''12'' @ ''abc'')
   \<and> p_skip (parse_params (GET None (no_query\<lparr>q_skip := Some ''12abc''\<rparr>))) \<noteq> NaN
   \<and> p_skip (parse_params (GET None (no_query\<lparr>q_skip := Some ''12abc''\<rparr>))) = Num 12
   \<and> q_skip (req_query (GET None (no_query\<lparr>q_skip := Some '' +7''\<rparr>))) = Some ('' '' @ ''+'' @ ''7'' @ [])
   \<and> p_skip (parse_params (GET None (no_query\<lparr>q_skip := Some '' +7''\<rparr>))) \<noteq> NaN
   \<and> p_skip (parse_params (GET None (no_query\<lparr>q_skip := Some '' +7''\<rparr>))) = Num 7"
proof -
  have q0: "q_skip (req_query (GET None no_query)) = None"
    "q_limit (req_query (GET None no_query)) = None"
    by (simp_all add: GET_def no_query_def)
  note t0 = skip_unset_without_leading_digit[of "GET None no_query"]
  from t0 q0 have c0: "p_skip (parse_params (GET None no_query)) = NaN"
    "p_limit (parse_params (GET None no_query)) = Num 100"
    by blast+
  have q1: "q_skip (req_query (GET None (no_query\<lparr>q_skip := Some ''abc''\<rparr>))) = Some ([] @ [] @ ''abc'')"
    by (simp add: GET_def no_query_def)
  have c1: "p_skip (parse_params (GET None (no_query\<lparr>q_skip := Some ''abc''\<rparr>))) = NaN"
    by (rule skip_unset_without_leading_digit[of "GET None (no_query\<lparr>q_skip := Some ''abc''\<rparr>)",
          THEN conjunct2, THEN conjunct1, rule_format, of "[]" "[]" "''abc''"])
       (simp add: GET_def no_query_def)
  have q2: "q_skip (req_query (GET None (no_query\<lparr>q_skip := Some '' -x''\<rparr>))) = Some ('' '' @ ''-'' @ ''x'')"
    by (simp add: GET_def no_query_def)
  have c2: "p_skip (parse_params (GET None (no_query\<lparr>q_skip := Some '' -x''\<rparr>))) = NaN"
    by (rule skip_unset_without_leading_digit[of "GET None (no_query\<lparr>q_skip := Some '' -x''\<rparr>)",
          THEN conjunct2, THEN conjunct1, rule_format, of "'' ''" "''-''" "''x''"])
       (simp add: GET_def no_query_def)
  have q3: "q_skip (req_query (GET None (no_query\<lparr>q_skip := Some ''12abc''\<rparr>))) = Some ([] @ [] @ ''12'' @ ''abc'')"
    by (simp add: GET_def no_query_def)
  have c3: "p_skip (parse_params (GET None (no_query\<lparr>q_skip := Some ''12abc''\<rparr>))) \<noteq> NaN"
    by (rule skip_unset_without_leading_digit[of "GET None (no_query\<lparr>q_skip := Some ''12abc''\<rparr>)",
          THEN conjunct2, THEN conjunct2, THEN conjunct1, rule_format, of "[]" "[]" "''12''" "''abc''"])
       (simp add: GET_def no_query_def)
  have v3: "p_skip (parse_params (GET None (no_query\<lparr>q_skip := Some ''12abc''\<rparr>))) = Num 12"
    by (simp add: param_defs)
  have q4: "q_skip (req_query (GET None (no_query\<lparr>q_skip := Some '' +7''\<rparr>))) = Some ('' '' @ ''+'' @ ''7'' @ [])"
    by (simp add: GET_def no_query_def)
  have c4: "p_skip (parse_params (GET None (no_query\<lparr>q_skip := Some '' +7''\<rparr>))) \<noteq> NaN"
    by (rule skip_unset_without_leading_digit[of "GET None (no_query\<lparr>q_skip := Some '' +7''\<rparr>)",
          THEN conjunct2, THEN conjunct2, THEN conjunct1, rule_format, of "'' ''" "''+''" "''7''" "[]"])
       (simp add: GET_def no_query_def)
  have v4: "p_skip (parse_params (GET None (no_query\<lparr>q_skip := Some '' +7''\<rparr>))) = Num 7"
    by (simp add: param_defs)
  from q0 c0 q1 c1 q2 c2 q3 c3 v3 q4 c4 v4 show ?thesis by (intro conjI)
qed

text \<open>
  C10: the limit passed to the listing is never 0 and never NaN; a query-string limit
  that parses to 0 or NaN is replaced by 100.
\<close>

theorem limit_never_zero_nor_nan:
  "p_limit (parse_params req) \<noteq> Num 0 \<and> p_limit (parse_params req) \<noteq> NaN
   \<and> (parseInt (q_limit (req_query req)) = Num 0 \<or> parseInt (q_limit (req_query req)) = NaN
        \<longrightarrow> p_limit (parse_params req) = Num 100)"
  by (auto simp: parse_params_def or_number_def split: jsnum.splits)

text \<open>
  C10 on the limits \<open>0\<close> and \<open>ten\<close>.
\<close>

theorem limit_never_zero_nor_nan_witness:
  "parseInt (q_limit (req_query (GET None (no_query\<lparr>q_limit := Some ''0''\<rparr>)))) = Num 0
   \<and> p_limit (parse_params (GET None (no_query\<lparr>q_limit := Some ''0''\<rparr>))) = Num 100
   \<and> parseInt (q_limit (req_query (GET None (no_query\<lparr>q_limit := Some ''ten''\<rparr>)))) = NaN
   \<and> p_limit (parse_params (GET None (no_query\<lparr>q_limit := Some ''ten''\<rparr>))) = Num 100"
proof -
  have h1: "parseInt (q_limit (req_query (GET None (no_query\<lparr>q_limit := Some ''0''\<rparr>)))) = Num 0"
    by (simp add: param_defs)
  have h2: "parseInt (q_limit (req_query (GET None (no_query\<lparr>q_limit := Some ''ten''\<rparr>)))) = NaN"
    by (simp add: param_defs)
  from h1 h2
    limit_never_zero_nor_nan[of "GET None (no_query\<lparr>q_limit := Some ''0''\<rparr>)"]
    limit_never_zero_nor_nan[of "GET None (no_query\<lparr>q_limit := Some ''ten''\<rparr>)"]
  show ?thesis by blast
qed

subsection \<open>The cache header\<close>

lemma header_kept_setHeader: "header_kept k v st \<Longrightarrow> k' \<noteq> k \<Longrightarrow> header_kept k v (setHeader k' v' st)"
  by (simp add: header_kept_def setHeader_def)

lemma header_kept_status: "header_kept k v st \<Longrightarrow> header_kept k v (status c st)"
  by (simp add: header_kept_def status_def)

lemma header_kept_console_log: "header_kept k v st \<Longrightarrow> header_kept k v (console_log err st)"
  by (simp add: header_kept_def console_log_def)

lemma header_kept_write_body: "header_kept k v st \<Longrightarrow> header_kept k v (write_body b st)"
  by (simp add: header_kept_def write_body_def)

lemma header_kept_catch: "header_kept k v st \<Longrightarrow> header_kept k v (catch_500 err st)"
  "header_kept k v st \<Longrightarrow> header_kept k v (catch_404 err st)"
  by (simp_all add: catch_500_def catch_404_def header_kept_write_body header_kept_status header_kept_console_log)

lemma header_kept_Csv: "header_kept k v st \<Longrightarrow> k \<noteq> ''Content-Type'' \<Longrightarrow> header_kept k v (snd (CsvWriter_write pwas st))"
  by (auto simp: CsvWriter_write_def header_kept_write_body header_kept_setHeader split: sum.splits)

lemma header_kept_Json: "header_kept k v st \<Longrightarrow> k \<noteq> ''Content-Type'' \<Longrightarrow> header_kept k v (snd (JsonWriter_write pwas st))"
  by (auto simp: JsonWriter_write_def header_kept_write_body header_kept_setHeader split: sum.splits)

lemma header_kept_Rss:
  assumes "header_kept k v st" and "k \<noteq> ''Content-Type''"
  shows "header_kept k v (snd (RssWriter_write e req pwas st))"
proof -
  obtain r st1 where s: "start e req pwas (new_feed (now e)) st = (r, st1)"
    by (cases "start e req pwas (new_feed (now e)) st")
  have "header_kept k v st1"
    using s
  proof (cases rule: start_cases)
    case (rejected err)
    with assms show ?thesis by (simp add: header_kept_def)
  next
    case (sent htmls)
    with assms show ?thesis by (simp add: header_kept_def)
  qed
  then show ?thesis using s by (cases r) (simp_all add: RssWriter_write_def header_kept_def)
qed

lemma header_kept_then_catch:
  assumes "header_kept k v st" and "k \<noteq> ''Content-Type''"
  shows "header_kept k v (then_catch e req format pwas st)"
proof -
  have "header_kept k v (snd (format_switch e req format pwas st))"
    using assms by (simp add: format_switch_def header_kept_Csv header_kept_Json header_kept_Rss)
  then show ?thesis
    by (auto simp: then_catch_def header_kept_catch split: prod.splits sum.splits)
qed

lemma header_kept_handler:
  assumes "header_kept ''Cache-Control'' ''public, max-age=3600'' (setHeader ''Cache-Control'' ''public, max-age=3600'' st)"
  shows "header_kept ''Cache-Control'' ''public, max-age=3600'' (handler e req st)"
  using assms
  by (auto simp: handler_def Let_def dec_expires header_kept_then_catch header_kept_catch
      split: option.splits sum.splits)

text \<open>
  C9: every response the handler sends, whatever its status, carries \<open>Cache-
  Control: public, max-age=3600\<close>: the header is set before the lookup or listing
  and nothing changes it afterwards.
\<close>

theorem cache_control_on_every_response:
  "list_all (\<lambda>w. sent_headers w ''Cache-Control'' = Some ''public, max-age=3600'')
     (sent (handler e req (fresh t)))"
proof -
  have "header_kept ''Cache-Control'' ''public, max-age=3600''
          (setHeader ''Cache-Control'' ''public, max-age=3600'' (fresh t))"
    by (simp add: header_kept_def setHeader_def fresh_def)
  then have "header_kept ''Cache-Control'' ''public, max-age=3600'' (handler e req (fresh t))"
    by (rule header_kept_handler)
  then show ?thesis by (simp add: header_kept_def)
qed

text \<open>
  C9 on a failed lookup (404), a failed listing (500) and a found record (200).
\<close>

theorem cache_control_on_every_response_witness:
  "map sent_status (sent (handler example_env (GET (Some ''zz'') no_query) (fresh 0))) = [404]
   \<and> list_all (\<lambda>w. sent_headers w ''Cache-Control'' = Some ''public, max-age=3600'')
        (sent (handler example_env (GET (Some ''zz'') no_query) (fresh 0)))
   \<and> map sent_status (sent (handler
          (example_env\<lparr>pwaLib_list := (\<lambda>skip limit sort. Inl (External ''store down''))\<rparr>)
          (GET None no_query) (fresh 0))) = [500]
   \<and> list_all (\<lambda>w. sent_headers w ''Cache-Control'' = Some ''public, max-age=3600'')
        (sent (handler
          (example_env\<lparr>pwaLib_list := (\<lambda>skip limit sort. Inl (External ''store down''))\<rparr>)
          (GET None no_query) (fresh 0)))
   \<and> map sent_status (sent (handler example_env (GET (Some ''a'') no_query) (fresh 0))) = [200]
   \<and> list_all (\<lambda>w. sent_headers w ''Cache-Control'' = Some ''public, max-age=3600'')
        (sent (handler example_env (GET (Some ''a'') no_query) (fresh 0)))"
proof -
  have s1: "map sent_status (sent (handler example_env (GET (Some ''zz'') no_query) (fresh 0))) = [404]"
    by (simp add: handler_defs number_defs)
  have s2: "map sent_status (sent (handler
          (example_env\<lparr>pwaLib_list := (\<lambda>skip limit sort. Inl (External ''store down''))\<rparr>)
          (GET None no_query) (fresh 0))) = [500]"
    by (simp add: handler_defs number_defs)
  have s3: "map sent_status (sent (handler example_env (GET (Some ''a'') no_query) (fresh 0))) = [200]"
    by (simp add: handler_defs date_defs number_defs)
  from s1 s2 s3
    cache_control_on_every_response[of example_env "GET (Some ''zz'') no_query" 0]
    cache_control_on_every_response[of "example_env\<lparr>pwaLib_list := (\<lambda>skip limit sort. Inl (External ''store down''))\<rparr>" "GET None no_query" 0]
    cache_control_on_every_response[of example_env "GET (Some ''a'') no_query" 0]
  show ?thesis by blast
qed

subsection \<open>The failed lookup\<close>

text \<open>
  C7: in single-record mode a failed lookup is answered once, with status 404 and the
  error as payload. No writer runs: nothing is rendered, the handler's code has set no
  header but the cache header, and the outcome does not depend on the format.
\<close>

theorem lookup_failure_404:
  assumes "params_id req = Some i" and "i \<noteq> []" and "pwaLib_find e i = Inl err"
  shows "sent (handler e req (fresh t)) =
           [\<lparr>sent_status = 404,
             sent_headers = [''Cache-Control'' \<mapsto> ''public, max-age=3600''],
             sent_body = JsonError err\<rparr>]
       \<and> renders (handler e req (fresh t)) = []
       \<and> headers (handler e req (fresh t)) ''Content-Type'' = None
       \<and> unhandled (handler e req (fresh t)) = []
       \<and> handler e (req\<lparr>req_query := (req_query req)\<lparr>q_format := fmt\<rparr>\<rparr>) (fresh t) = handler e req (fresh t)"
  using assms
  by (simp add: handler_def Let_def dec_expires catch_404_def write_body_def status_def
      console_log_def setHeader_def fresh_def)

text \<open>
  C7 on the unknown id \<open>zz\<close>.
\<close>

theorem lookup_failure_404_witness:
  "params_id (GET (Some ''zz'') no_query) = Some ''zz'' \<and> ''zz'' \<noteq> []
   \<and> pwaLib_find example_env ''zz'' = Inl (External ''not found'')
   \<and> sent (handler example_env (GET (Some ''zz'') no_query) (fresh 0)) =
        [\<lparr>sent_status = 404,
          sent_headers = [''Cache-Control'' \<mapsto> ''public, max-age=3600''],
          sent_body = JsonError (External ''not found'')\<rparr>]
   \<and> renders (handler example_env (GET (Some ''zz'') no_query) (fresh 0)) = []
   \<and> handler example_env ((GET (Some ''zz'') no_query)\<lparr>req_query :=
          (req_query (GET (Some ''zz'') no_query))\<lparr>q_format := Some ''rss''\<rparr>\<rparr>) (fresh 0) =
       handler example_env (GET (Some ''zz'') no_query) (fresh 0)"
proof -
  have h1: "params_id (GET (Some ''zz'') no_query) = Some ''zz''" by (simp add: GET_def)
  have h2: "''zz'' \<noteq> []" by simp
  have h3: "pwaLib_find example_env ''zz'' = Inl (External ''not found'')" by (simp add: example_env_def)
  from lookup_failure_404[OF h1 h2 h3, of 0 "Some ''rss''"] h1 h2 h3 show ?thesis by blast
qed

subsection \<open>The number of responses\<close>

lemma catch_answered: "sent st1 = sent st \<Longrightarrow> unhandled st1 = unhandled st \<Longrightarrow> answered st (catch_500 err st1)"
  "sent st1 = sent st \<Longrightarrow> unhandled st1 = unhandled st \<Longrightarrow> answered st (catch_404 err st1)"
  by (simp_all add: answered_def catch_500_def catch_404_def write_body_def status_def console_log_def)

lemma Csv_then: "CsvWriter_write pwas st = (r, st') \<Longrightarrow>
   (r = Inr () \<and> answered st st') \<or> (\<exists>err. r = Inl err \<and> st' = st)"
  by (auto simp: CsvWriter_write_def answered_def write_body_def setHeader_def split: sum.splits)

lemma Json_then: "JsonWriter_write pwas st = (r, st') \<Longrightarrow>
   (r = Inr () \<and> answered st st') \<or> (\<exists>err. r = Inl err \<and> st' = st)"
  by (auto simp: JsonWriter_write_def answered_def write_body_def setHeader_def split: sum.splits)

lemma Rss_then:
  assumes "RssWriter_write e req pwas st = (r, st')"
  shows "r = Inr () \<and> (answered st st' \<or> abandoned st st')"
proof -
  obtain r1 st1 where s: "start e req pwas (new_feed (now e)) st = (r1, st1)"
    by (cases "start e req pwas (new_feed (now e)) st")
  from s show ?thesis
  proof (cases rule: start_cases)
    case (rejected err)
    with s assms show ?thesis by (auto simp: RssWriter_write_def abandoned_def)
  next
    case (sent htmls)
    with s assms show ?thesis by (auto simp: RssWriter_write_def answered_def)
  qed
qed

lemma then_catch_writes: "answered st (then_catch e req format pwas st) \<or> abandoned st (then_catch e req format pwas st)"
proof -
  obtain r st' where f: "format_switch e req format pwas st = (r, st')"
    by (cases "format_switch e req format pwas st")
  consider (csv) "CsvWriter_write pwas st = (r, st')" | (rss) "RssWriter_write e req pwas st = (r, st')"
    | (json) "JsonWriter_write pwas st = (r, st')"
    using f by (auto simp: format_switch_def split: if_splits)
  then show ?thesis
  proof cases
    case csv
    from Csv_then[OF this] f show ?thesis by (auto simp: then_catch_def catch_answered)
  next
    case rss
    from Rss_then[OF this] f show ?thesis by (auto simp: then_catch_def)
  next
    case json
    from Json_then[OF this] f show ?thesis by (auto simp: then_catch_def catch_answered)
  qed
qed

lemma answered_setHeader: "answered (setHeader k v st) st' \<Longrightarrow> answered st st'"
  "abandoned (setHeader k v st) st' \<Longrightarrow> abandoned st st'"
  by (simp_all add: answered_def abandoned_def setHeader_def)

text \<open>
  A request comes to one of two ends: exactly one response, or no response and an
  unhandled rejection. It never comes to two responses.
\<close>

lemma handler_writes: "answered st (handler e req st) \<or> abandoned st (handler e req st)"
proof -
  let ?st1 = "setHeader ''Cache-Control'' (''public, max-age='' @ dec CACHE_CONTROL_EXPIRES) st"
  have a: "\<And>f pwas. answered st (then_catch e req f pwas ?st1) \<or> abandoned st (then_catch e req f pwas ?st1)"
    using then_catch_writes answered_setHeader by blast
  have b: "\<And>err. answered st (catch_500 err ?st1)" "\<And>err. answered st (catch_404 err ?st1)"
    by (simp_all add: catch_answered setHeader_def)
  show ?thesis
    using a b by (auto simp: handler_def Let_def split: option.splits sum.splits)
qed

text \<open>
  Whenever the promise of \<open>start\<close> rejects, the \<open>then\<close> callback has already returned
  normally: no response is sent and the rejection stays unhandled.
\<close>

lemma rss_rejection_is_abandoned:
  assumes "start e req pwas (new_feed (now e)) st = (Inl err, st')"
  shows "then_catch e req ''rss'' pwas st = st'\<lparr>unhandled := unhandled st' @ [err]\<rparr>"
    and "sent (then_catch e req ''rss'' pwas st) = sent st"
    and "unhandled (then_catch e req ''rss'' pwas st) = unhandled st @ [err]"
proof -
  show t: "then_catch e req ''rss'' pwas st = st'\<lparr>unhandled := unhandled st' @ [err]\<rparr>"
    using assms by (simp add: then_catch_def format_switch_def RssWriter_write_def)
  from assms show "sent (then_catch e req ''rss'' pwas st) = sent st"
    by (cases rule: start_cases) (simp_all add: t)
  from assms show "unhandled (then_catch e req ''rss'' pwas st) = unhandled st @ [err]"
    by (cases rule: start_cases) (simp_all add: t)
qed

text \<open>
  The sibling paths: an exception in the CSV or JSON writer, and a failed listing, do
  reach the final \<open>catch\<close> and are answered with status 500.
\<close>

lemma csv_failure_is_caught:
  "sent (handler (example_env\<lparr>pwaLib_list := (\<lambda>skip limit sort. Inr [example_a, example_undated])\<rparr>)
      (GET None (no_query\<lparr>q_format := Some ''csv''\<rparr>)) (fresh 0)) =
     [\<lparr>sent_status = 500, sent_headers = [''Cache-Control'' \<mapsto> ''public, max-age=3600''],
       sent_body = JsonError RangeError\<rparr>]"
  by (simp add: handler_defs date_defs number_defs)

lemma json_failure_is_caught:
  "sent (handler (example_env\<lparr>pwaLib_list := (\<lambda>skip limit sort. Inr [example_a, example_undated])\<rparr>)
      (GET None no_query) (fresh 0)) =
     [\<lparr>sent_status = 500, sent_headers = [''Cache-Control'' \<mapsto> ''public, max-age=3600''],
       sent_body = JsonError RangeError\<rparr>]"
  by (simp add: handler_defs date_defs number_defs)

lemma listing_failure_is_caught:
  "sent (handler (example_env\<lparr>pwaLib_list := (\<lambda>skip limit sort. Inl (External ''store down''))\<rparr>)
      (GET None (no_query\<lparr>q_format := Some ''rss''\<rparr>)) (fresh 0)) =
     [\<lparr>sent_status = 500, sent_headers = [''Cache-Control'' \<mapsto> ''public, max-age=3600''],
       sent_body = JsonError (External ''store down'')\<rparr>]"
  by (simp add: handler_defs date_defs number_defs)

text \<open>
  C1 asks for exactly one response on every path. The handler falls short of it where a
  render fails during the RSS build: listing the two example records as RSS with a
  template engine that fails on the second one sends no response at all and leaves the
  rejection unhandled. (On every other path there is exactly one response, see
  \<open>handler_writes\<close>.)
\<close>

theorem rss_render_failure_no_response:
  "sent (handler failing_env (GET None (no_query\<lparr>q_format := Some ''rss''\<rparr>)) (fresh 0)) = []
   \<and> unhandled (handler failing_env (GET None (no_query\<lparr>q_format := Some ''rss''\<rparr>)) (fresh 0)) =
       [External ''render failed'']"
  by (simp add: handler_defs number_defs)

text \<open>
  C2 asks that a rejected render reaches the final \<open>catch\<close> of the handler
  and is answered with status 500. The promise of \<open>start\<close> is dropped by
  \<open>RssWriter.write\<close>, so the rejection reaches no handler: asking for record
  \<open>b\<close> as RSS when its render fails sends nothing, leaves the status at 200
  and the rejection unhandled.
\<close>

theorem rss_render_rejection_not_caught:
  "pwaLib_find failing_env ''b'' = Inr example_b
   \<and> fst (renderOnePwaRss failing_env example_b (GET (Some ''b'') (no_query\<lparr>q_format := Some ''rss''\<rparr>)) (fresh 0))
       = Inl (External ''render failed'')
   \<and> list_all (\<lambda>w. sent_status w \<noteq> 500)
       (sent (handler failing_env (GET (Some ''b'') (no_query\<lparr>q_format := Some ''rss''\<rparr>)) (fresh 0)))
   \<and> sent (handler failing_env (GET (Some ''b'') (no_query\<lparr>q_format := Some ''rss''\<rparr>)) (fresh 0)) = []
   \<and> statusCode (handler failing_env (GET (Some ''b'') (no_query\<lparr>q_format := Some ''rss''\<rparr>)) (fresh 0)) = 200
   \<and> unhandled (handler failing_env (GET (Some ''b'') (no_query\<lparr>q_format := Some ''rss''\<rparr>)) (fresh 0)) =
       [External ''render failed'']"
  by (simp add: handler_defs number_defs)

end
